theory Spec2Isabelle
  imports Complex_Main "HOL-Library.AList"
begin

section \<open>The mesh detector of xrblocks: data model\<close>

text \<open>
  The development embeds the class \<open>MeshDetector\<close> (a wrapper around the WebXR mesh
  detection interface). JavaScript numbers are idealised as real numbers: rounding,
  infinities and NaN are not represented. JavaScript objects that are compared by identity
  (\<open>XRMesh\<close>, \<open>XRSpace\<close>, \<open>DetectedMesh\<close>) are references, written as natural numbers.
\<close>

type_synonym xrmesh = nat
type_synonym xrspace = nat
type_synonym refspace = nat
type_synonym objref = nat

datatype vector3 = Vector3 (vx: real) (vy: real) (vz: real)

text \<open>\<open>DOMPointReadOnly\<close>: the four components x, y, z, w.\<close>

datatype dompoint = DOMPoint (px: real) (py: real) (pz: real) (pw: real)

text \<open>
  \<open>XRRigidTransform.matrix\<close> is a sixteen-element array in column-major order; the
  constructor lists the elements 0 to 15, so no read is ever out of range.
\<close>

datatype matrix4 = Matrix4 real real real real real real real real
                           real real real real real real real real

record xr_rigid_transform =
  transform_position :: dompoint
  transform_orientation :: dompoint
  transform_matrix :: matrix4

text \<open>An \<open>XRPose\<close> carries a transform; an \<open>XRViewerPose\<close> also has its views.\<close>

record xr_pose =
  transform :: xr_rigid_transform

record xr_viewer_pose =
  views :: "xr_rigid_transform list"

text \<open>The fields of an \<open>XRMesh\<close> object that the detector and its meshes read.\<close>

record xr_mesh_object =
  meshSpace :: xrspace
  semanticLabel :: "string option"
  vertices :: "real list"
  indices :: "nat list"

text \<open>
  An \<open>XRFrame\<close>. Its \<open>detectedMeshes\<close>, when present, is a set-like collection; the
  list gives the meshes in the order in which the collection is iterated.
\<close>

record xr_frame =
  detectedMeshes :: "xrmesh list option"
  getPose :: "xrspace \<Rightarrow> refspace \<Rightarrow> xr_pose option"
  getViewerPose :: "refspace \<Rightarrow> xr_viewer_pose option"

text \<open>
  What one call observes of the world outside the detector: the clock
  (\<open>performance.now()\<close>), the renderer's reference space
  (\<open>renderer.xr.getReferenceSpace()\<close>) and the current contents of the \<open>XRMesh\<close> objects.
\<close>

record environment =
  performance_now :: real
  getReferenceSpace :: "refspace option"
  xrMeshObject :: "xrmesh \<Rightarrow> xr_mesh_object"

datatype side = FrontSide | BackSide | DoubleSide

record material =
  color :: nat
  wireframe :: bool
  material_side :: side
  visible :: bool

record physics =
  RAPIER :: nat
  blendedWorld :: nat

record mesh_detection_options =
  showDebugVisualizations :: bool

text \<open>
  Modelled from the spec: the class \<open>DetectedMesh\<close> (file \<open>DetectedMesh\<close>, not among the
  sources). A synced mesh holds a geometry derived from the sensor mesh's vertex data, a
  material, and a world transform (position and orientation); its resources can be
  released, and a physics representation can be registered for it. The two flags record
  the calls of \<open>dispose\<close> and \<open>initRapierPhysics\<close>.
\<close>

record detected_mesh =
  mesh_material :: material
  mesh_geometry :: "real list \<times> nat list"
  mesh_position :: vector3
  mesh_quaternion :: dompoint
  mesh_disposed :: bool
  mesh_rapier :: "physics list"

text \<open>
  The detector. The two JavaScript \<open>Map\<close>s are association lists in insertion order; the
  \<open>DetectedMesh\<close> objects live in \<open>objects\<close>, and \<open>nextRef\<close> is the next unused
  reference (what \<open>new\<close> returns). \<open>children\<close> is the child list of the scene-graph node.
\<close>

record mesh_detector =
  debugMaterials :: "(string \<times> material) list"
  fallbackDebugMaterial :: "material option"
  xrMeshToThreeMesh :: "(xrmesh \<times> objref) list"
  threeMeshToXrMesh :: "(objref \<times> xrmesh) list"
  physics_of :: "physics option"
  lastMeshUpdateTime :: real
  children :: "objref list"
  objects :: "objref \<rightharpoonup> detected_mesh"
  nextRef :: objref

section \<open>Constants\<close>

definition SEMANTIC_LABELS :: "string list" where
  "SEMANTIC_LABELS = [''floor'', ''ceiling'', ''wall'']"

definition SEMANTIC_COLORS :: "nat list" where
  "SEMANTIC_COLORS = [65280, 16776960, 255]"

definition kMaxViewDistance :: real where
  "kMaxViewDistance = 3"

definition kFOVCosThreshold :: real where
  "kFOVCosThreshold = 25 / 100"

definition MAX_MESHES_PER_FRAME :: nat where
  "MAX_MESHES_PER_FRAME = 100000"

definition MESH_UPDATE_INTERVAL_MS :: real where
  "MESH_UPDATE_INTERVAL_MS = 1000"

text \<open>\<open>new THREE.MeshBasicMaterial(...)\<close> with the library's defaults for what is not given.\<close>

definition MeshBasicMaterial :: material where
  "MeshBasicMaterial = \<lparr>color = 16777215, wireframe = False, material_side = FrontSide, visible = True\<rparr>"

definition defaultMaterial :: material where
  "defaultMaterial = MeshBasicMaterial\<lparr>visible := False\<rparr>"

definition newMeshDetector :: mesh_detector where
  "newMeshDetector =
     \<lparr>debugMaterials = [], fallbackDebugMaterial = None,
      xrMeshToThreeMesh = [], threeMeshToXrMesh = [],
      physics_of = None, lastMeshUpdateTime = 0,
      children = [], objects = Map.empty, nextRef = 0\<rparr>"

section \<open>The scene graph and the detected meshes\<close>

text \<open>
  \<open>Object3D.add\<close> takes the object out of its parent first and appends it;
  \<open>Object3D.remove\<close> splices the first occurrence out.
\<close>

definition add_child :: "objref \<Rightarrow> mesh_detector \<Rightarrow> mesh_detector" where
  "add_child r s = s\<lparr>children := remove1 r (children s) @ [r]\<rparr>"

definition remove_child :: "objref \<Rightarrow> mesh_detector \<Rightarrow> mesh_detector" where
  "remove_child r s = s\<lparr>children := remove1 r (children s)\<rparr>"

definition modify :: "objref \<Rightarrow> (detected_mesh \<Rightarrow> detected_mesh) \<Rightarrow> mesh_detector \<Rightarrow> mesh_detector" where
  "modify r f s =
     (case objects s r of
        None \<Rightarrow> s
      | Some obj \<Rightarrow> s\<lparr>objects := (objects s)(r \<mapsto> f obj)\<rparr>)"

text \<open>Modelled from the spec: \<open>new DetectedMesh(xrMesh, material)\<close>, at the origin, unrotated.\<close>

definition newDetectedMesh :: "xr_mesh_object \<Rightarrow> material \<Rightarrow> detected_mesh" where
  "newDetectedMesh xm mat =
     \<lparr>mesh_material = mat, mesh_geometry = (vertices xm, indices xm),
      mesh_position = Vector3 0 0 0, mesh_quaternion = DOMPoint 0 0 0 1,
      mesh_disposed = False, mesh_rapier = []\<rparr>"

text \<open>Modelled from the spec: \<open>DetectedMesh.dispose\<close> releases the mesh's resources.\<close>

definition dispose :: "objref \<Rightarrow> mesh_detector \<Rightarrow> mesh_detector" where
  "dispose r = modify r (\<lambda>obj. obj\<lparr>mesh_disposed := True\<rparr>)"

text \<open>Modelled from the spec: \<open>DetectedMesh.updateVertices\<close> takes the latest vertex data.\<close>

definition updateVertices :: "objref \<Rightarrow> xr_mesh_object \<Rightarrow> mesh_detector \<Rightarrow> mesh_detector" where
  "updateVertices r xm = modify r (\<lambda>obj. obj\<lparr>mesh_geometry := (vertices xm, indices xm)\<rparr>)"

text \<open>Modelled from the spec: \<open>DetectedMesh.initRapierPhysics\<close> registers a physics representation.\<close>

definition initRapierPhysics :: "objref \<Rightarrow> physics \<Rightarrow> mesh_detector \<Rightarrow> mesh_detector" where
  "initRapierPhysics r p = modify r (\<lambda>obj. obj\<lparr>mesh_rapier := mesh_rapier obj @ [p]\<rparr>)"

section \<open>Vector arithmetic of the 3D library\<close>

text \<open>
  The operations of \<open>THREE.Matrix4\<close> and \<open>THREE.Vector3\<close> that the detector calls, as
  the library defines them. A \<open>Matrix4\<close> holds the sixteen elements it is given.
\<close>

definition fromArray :: "matrix4 \<Rightarrow> matrix4" where
  "fromArray a = a"

fun setFromMatrixPosition :: "matrix4 \<Rightarrow> vector3" where
  "setFromMatrixPosition (Matrix4 e0 e1 e2 e3 e4 e5 e6 e7 e8 e9 e10 e11 e12 e13 e14 e15) =
     Vector3 e12 e13 e14"

fun applyMatrix4 :: "matrix4 \<Rightarrow> vector3 \<Rightarrow> vector3" where
  "applyMatrix4 (Matrix4 e0 e1 e2 e3 e4 e5 e6 e7 e8 e9 e10 e11 e12 e13 e14 e15) (Vector3 a b c) =
     (let w = 1 / (e3 * a + e7 * b + e11 * c + e15)
      in Vector3 ((e0 * a + e4 * b + e8 * c + e12) * w)
                 ((e1 * a + e5 * b + e9 * c + e13) * w)
                 ((e2 * a + e6 * b + e10 * c + e14) * w))"

fun sub :: "vector3 \<Rightarrow> vector3 \<Rightarrow> vector3" where
  "sub (Vector3 a b c) (Vector3 a' b' c') = Vector3 (a - a') (b - b') (c - c')"

fun vlength :: "vector3 \<Rightarrow> real" where
  "vlength (Vector3 a b c) = sqrt (a * a + b * b + c * c)"

text \<open>\<open>normalize\<close> divides by \<open>length() || 1\<close>: a zero length is replaced by one.\<close>

fun normalize :: "vector3 \<Rightarrow> vector3" where
  "normalize (Vector3 a b c) =
     (let l = vlength (Vector3 a b c); d = (if l = 0 then 1 else l); k = 1 / d
      in Vector3 (a * k) (b * k) (c * k))"

section \<open>The methods of the detector\<close>

text \<open>
  \<open>init\<close>: with debug visualisations on, the wireframe fallback and one material per
  semantic label are made; the loop runs over the indices of \<open>SEMANTIC_LABELS\<close>. The
  renderer that \<open>init\<close> stores is only ever asked for its reference space, which is a
  field of \<open>environment\<close>.
\<close>

definition init :: "mesh_detection_options \<Rightarrow> mesh_detector \<Rightarrow> mesh_detector" where
  "init options s =
     (if showDebugVisualizations options then
        s\<lparr>fallbackDebugMaterial :=
             Some (MeshBasicMaterial\<lparr>color := 0, wireframe := True, material_side := DoubleSide\<rparr>),
          debugMaterials :=
             foldl (\<lambda>m i. AList.update (SEMANTIC_LABELS ! i)
                             (MeshBasicMaterial\<lparr>color := SEMANTIC_COLORS ! i, wireframe := True,
                                                material_side := DoubleSide\<rparr>) m)
                   (debugMaterials s) [0..<length SEMANTIC_LABELS]\<rparr>
      else s)"

definition initPhysics :: "physics \<Rightarrow> mesh_detector \<Rightarrow> mesh_detector" where
  "initPhysics p s =
     foldl (\<lambda>t (_, mesh). initRapierPhysics mesh p t) (s\<lparr>physics_of := Some p\<rparr>) (xrMeshToThreeMesh s)"

text \<open>\<open>mesh.position.copy(pose.transform.position)\<close> and \<open>mesh.quaternion.copy(...)\<close>.\<close>

definition copyPose :: "xr_pose \<Rightarrow> detected_mesh \<Rightarrow> detected_mesh" where
  "copyPose pose obj =
     obj\<lparr>mesh_position :=
           Vector3 (px (transform_position (transform pose)))
                   (py (transform_position (transform pose)))
                   (pz (transform_position (transform pose))),
         mesh_quaternion := transform_orientation (transform pose)\<rparr>"

text \<open>
  \<open>updateMeshPose\<close> asks the renderer for the reference space again and asserts that it is
  there; \<open>updateMeshes\<close> only gets this far when it is.
\<close>

definition updateMeshPose ::
  "environment \<Rightarrow> xr_frame \<Rightarrow> xrmesh \<Rightarrow> objref \<Rightarrow> mesh_detector \<Rightarrow> mesh_detector" where
  "updateMeshPose env frame xrMesh mesh s =
     (case getReferenceSpace env of
        None \<Rightarrow> s
      | Some referenceSpace \<Rightarrow>
          (case getPose frame (meshSpace (xrMeshObject env xrMesh)) referenceSpace of
             None \<Rightarrow> s
           | Some pose \<Rightarrow> modify mesh (copyPose pose) s))"

text \<open>
  The material is the first truthy operand of the \<open>||\<close> chain: the lookup happens only for
  a label that is defined and not the empty string.
\<close>

definition chooseMaterial :: "mesh_detector \<Rightarrow> string option \<Rightarrow> material" where
  "chooseMaterial s label =
     (case (case label of
              None \<Rightarrow> None
            | Some l \<Rightarrow> if l = [] then None else map_of (debugMaterials s) l) of
        Some m \<Rightarrow> m
      | None \<Rightarrow>
          (case fallbackDebugMaterial s of
             Some m \<Rightarrow> m
           | None \<Rightarrow> defaultMaterial))"

text \<open>\<open>createMesh\<close> returns the reference of the new object and the detector holding it.\<close>

definition createMesh ::
  "environment \<Rightarrow> xr_frame \<Rightarrow> xrmesh \<Rightarrow> mesh_detector \<Rightarrow> objref \<times> mesh_detector" where
  "createMesh env frame xrMesh s =
     (let semanticLabel = semanticLabel (xrMeshObject env xrMesh);
          mat = chooseMaterial s semanticLabel;
          mesh = nextRef s;
          s1 = s\<lparr>objects := (objects s)(mesh \<mapsto> newDetectedMesh (xrMeshObject env xrMesh) mat),
                 nextRef := Suc mesh\<rparr>
      in (mesh, updateMeshPose env frame xrMesh mesh s1))"

definition getCameraInfo :: "xr_frame \<Rightarrow> refspace \<Rightarrow> vector3 \<times> vector3" where
  "getCameraInfo frame referenceSpace =
     (case getViewerPose frame referenceSpace of
        None \<Rightarrow> (Vector3 0 0 0, Vector3 0 0 (- 1))
      | Some viewerPose \<Rightarrow>
          (case views viewerPose of
             [] \<Rightarrow> (Vector3 0 0 0, Vector3 0 0 (- 1))
           | viewTransform # _ \<Rightarrow>
               (let viewMatrix = fromArray (transform_matrix viewTransform);
                    cameraPosition = setFromMatrixPosition viewMatrix;
                    forward = normalize (sub (applyMatrix4 viewMatrix (Vector3 0 0 (- 1))) cameraPosition)
                in (cameraPosition, forward))))"

definition shouldShowMeshInView ::
  "environment \<Rightarrow> xrmesh \<Rightarrow> vector3 \<Rightarrow> vector3 \<Rightarrow> xr_frame \<Rightarrow> refspace \<Rightarrow> bool" where
  "shouldShowMeshInView env mesh cameraPosition cameraForward frame referenceSpace =
     (case getPose frame (meshSpace (xrMeshObject env mesh)) referenceSpace of
        None \<Rightarrow> True
      | Some meshPose \<Rightarrow>
          (let meshMatrix = fromArray (transform_matrix (transform meshPose));
               meshPosition = setFromMatrixPosition meshMatrix;
               dx = vx meshPosition - vx cameraPosition;
               dy = vy meshPosition - vy cameraPosition;
               dz = vz meshPosition - vz cameraPosition;
               distance = sqrt (dx * dx + dy * dy + dz * dz)
           in if distance > kMaxViewDistance then False
              else if distance > 1 / 1000 then
                (let invDistance = 1 / distance;
                     dirX = dx * invDistance;
                     dirY = dy * invDistance;
                     dirZ = dz * invDistance;
                     dotForward = dirX * vx cameraForward + dirY * vy cameraForward
                                    + dirZ * vz cameraForward
                 in if dotForward < kFOVCosThreshold then False else True)
              else True))"

text \<open>
  The four statements that take a mesh out (they occur twice in \<open>updateMeshes\<close>): delete
  both map entries, dispose of the object, remove it from the scene.
\<close>

definition removeMesh :: "xrmesh \<Rightarrow> objref \<Rightarrow> mesh_detector \<Rightarrow> mesh_detector" where
  "removeMesh xrMesh threeMesh s =
     remove_child threeMesh
       (dispose threeMesh
          (s\<lparr>xrMeshToThreeMesh := AList.delete xrMesh (xrMeshToThreeMesh s),
             threeMeshToXrMesh := AList.delete threeMesh (threeMeshToXrMesh s)\<rparr>))"

text \<open>
  The first loop, over the entries of the forward map. A JavaScript \<open>Map\<close> iterator
  survives the deletion of the entry it stands on, so the loop visits the entries the map
  had when the loop began.
\<close>

fun deleteOldMeshes :: "xrmesh list \<Rightarrow> (xrmesh \<times> objref) list \<Rightarrow> mesh_detector \<Rightarrow> mesh_detector" where
  "deleteOldMeshes meshes [] s = s"
| "deleteOldMeshes meshes ((xrMesh, threeMesh) # entries) s =
     deleteOldMeshes meshes entries
       (if xrMesh \<notin> set meshes then removeMesh xrMesh threeMesh s else s)"

text \<open>The body of the second loop for a mesh that fails the culling test.\<close>

definition hideMesh :: "xrmesh \<Rightarrow> mesh_detector \<Rightarrow> mesh_detector" where
  "hideMesh xrMesh s =
     (case map_of (xrMeshToThreeMesh s) xrMesh of
        Some threeMesh \<Rightarrow> removeMesh xrMesh threeMesh s
      | None \<Rightarrow> s)"

text \<open>The body of the second loop for a mesh that passes the culling test.\<close>

definition showMesh :: "environment \<Rightarrow> xr_frame \<Rightarrow> xrmesh \<Rightarrow> mesh_detector \<Rightarrow> mesh_detector" where
  "showMesh env frame xrMesh s =
     (case map_of (xrMeshToThreeMesh s) xrMesh of
        None \<Rightarrow>
          (let (threeMesh, s1) = createMesh env frame xrMesh s;
               s2 = s1\<lparr>xrMeshToThreeMesh := AList.update xrMesh threeMesh (xrMeshToThreeMesh s1)\<rparr>;
               s3 = s2\<lparr>threeMeshToXrMesh := AList.update threeMesh xrMesh (threeMeshToXrMesh s2)\<rparr>;
               s4 = add_child threeMesh s3
           in (case physics_of s4 of
                 Some p \<Rightarrow> initRapierPhysics threeMesh p s4
               | None \<Rightarrow> s4))
      | Some threeMesh \<Rightarrow>
          updateMeshPose env frame xrMesh threeMesh
            (updateVertices threeMesh (xrMeshObject env xrMesh) s))"

text \<open>The second loop, over the detected meshes, with its counter and its \<open>break\<close>.\<close>

fun processMeshes ::
  "environment \<Rightarrow> xr_frame \<Rightarrow> refspace \<Rightarrow> vector3 \<Rightarrow> vector3 \<Rightarrow> nat \<Rightarrow> xrmesh list
     \<Rightarrow> mesh_detector \<Rightarrow> mesh_detector" where
  "processMeshes env frame referenceSpace cameraPosition cameraForward processedCount [] s = s"
| "processMeshes env frame referenceSpace cameraPosition cameraForward processedCount (xrMesh # rest) s =
     (if processedCount \<ge> MAX_MESHES_PER_FRAME then s
      else if \<not> shouldShowMeshInView env xrMesh cameraPosition cameraForward frame referenceSpace
      then processMeshes env frame referenceSpace cameraPosition cameraForward processedCount rest
             (hideMesh xrMesh s)
      else processMeshes env frame referenceSpace cameraPosition cameraForward (Suc processedCount) rest
             (showMesh env frame xrMesh s))"

text \<open>
  \<open>updateMeshes\<close>: the argument \<open>timestamp\<close> is not used by the method; the time comes
  from the clock.
\<close>

definition updateMeshes ::
  "real \<Rightarrow> environment \<Rightarrow> xr_frame option \<Rightarrow> mesh_detector \<Rightarrow> mesh_detector" where
  "updateMeshes timestamp env frameOpt s =
     (case frameOpt of
        None \<Rightarrow> s
      | Some frame \<Rightarrow>
          (case detectedMeshes frame of
             None \<Rightarrow> s
           | Some meshes \<Rightarrow>
               (let now = performance_now env;
                    timeSinceLastUpdate = now - lastMeshUpdateTime s
                in if timeSinceLastUpdate < MESH_UPDATE_INTERVAL_MS then s
                   else
                     (let s1 = s\<lparr>lastMeshUpdateTime := now\<rparr>
                      in (case getReferenceSpace env of
                            None \<Rightarrow> s1
                          | Some referenceSpace \<Rightarrow>
                              (let (cameraPosition, cameraForward) = getCameraInfo frame referenceSpace;
                                   s2 = deleteOldMeshes meshes (xrMeshToThreeMesh s1) s1
                               in processMeshes env frame referenceSpace cameraPosition cameraForward
                                    0 meshes s2))))))"

section \<open>Sequences of calls\<close>

datatype call =
    Init mesh_detection_options
  | InitPhysics physics
  | UpdateMeshes real environment "xr_frame option"

fun call_step :: "mesh_detector \<Rightarrow> call \<Rightarrow> mesh_detector" where
  "call_step s (Init options) = init options s"
| "call_step s (InitPhysics p) = initPhysics p s"
| "call_step s (UpdateMeshes timestamp env frameOpt) = updateMeshes timestamp env frameOpt s"

text \<open>The detector after a sequence of calls on a newly constructed one.\<close>

definition run :: "call list \<Rightarrow> mesh_detector" where
  "run calls = foldl call_step newMeshDetector calls"

section \<open>Predicates on the detector\<close>

text \<open>
  The two maps are inverse to each other: every entry of one has its mirror entry in the
  other.
\<close>

definition mappingsConsistent :: "mesh_detector \<Rightarrow> bool" where
  "mappingsConsistent s \<longleftrightarrow>
     list_all (\<lambda>(xrMesh, threeMesh). map_of (threeMeshToXrMesh s) threeMesh = Some xrMesh)
        (xrMeshToThreeMesh s) \<and>
     list_all (\<lambda>(threeMesh, xrMesh). map_of (xrMeshToThreeMesh s) xrMesh = Some threeMesh)
        (threeMeshToXrMesh s)"

text \<open>An object that exists and has not been disposed of.\<close>

definition objectLive :: "mesh_detector \<Rightarrow> objref \<Rightarrow> bool" where
  "objectLive s r = (case objects s r of None \<Rightarrow> False | Some obj \<Rightarrow> \<not> mesh_disposed obj)"

text \<open>
  The invariant of the detector: the maps have one entry per key and are inverse to each
  other; every mapped reference is an allocated object that has not been disposed of and
  is a child of the detector; the child list has no duplicates and holds mapped
  references only.
\<close>

definition wellFormed :: "mesh_detector \<Rightarrow> bool" where
  "wellFormed s \<longleftrightarrow>
     distinct (map fst (xrMeshToThreeMesh s)) \<and>
     distinct (map fst (threeMeshToXrMesh s)) \<and>
     list_all (\<lambda>(xrMesh, threeMesh).
        map_of (threeMeshToXrMesh s) threeMesh = Some xrMesh \<and> threeMesh < nextRef s \<and>
        objectLive s threeMesh \<and> threeMesh \<in> set (children s)) (xrMeshToThreeMesh s) \<and>
     list_all (\<lambda>(threeMesh, xrMesh). map_of (xrMeshToThreeMesh s) xrMesh = Some threeMesh)
        (threeMeshToXrMesh s) \<and>
     distinct (children s) \<and>
     list_all (\<lambda>r. r < nextRef s \<and> map_of (threeMeshToXrMesh s) r \<noteq> None) (children s)"

text \<open>
  A mesh that has been taken out: no entry in either map, its object disposed of and no
  longer a child. A mesh that is shown: both entries, its object live and a child.
\<close>

definition meshRemoved :: "xrmesh \<Rightarrow> objref \<Rightarrow> mesh_detector \<Rightarrow> bool" where
  "meshRemoved h m s \<longleftrightarrow>
     map_of (xrMeshToThreeMesh s) h = None \<and> map_of (threeMeshToXrMesh s) m = None \<and>
     (case objects s m of None \<Rightarrow> False | Some obj \<Rightarrow> mesh_disposed obj) \<and>
     m \<notin> set (children s)"

definition meshMapped :: "xrmesh \<Rightarrow> objref \<Rightarrow> mesh_detector \<Rightarrow> bool" where
  "meshMapped h m s \<longleftrightarrow>
     map_of (xrMeshToThreeMesh s) h = Some m \<and> map_of (threeMeshToXrMesh s) m = Some h \<and>
     objectLive s m \<and> m \<in> set (children s)"

text \<open>What \<open>updateMeshPose\<close> does to the object of a mesh: nothing without a pose.\<close>

definition poseUpdate :: "environment \<Rightarrow> xr_frame \<Rightarrow> xrmesh \<Rightarrow> detected_mesh \<Rightarrow> detected_mesh" where
  "poseUpdate env frame xrMesh =
     (case getReferenceSpace env of
        None \<Rightarrow> id
      | Some referenceSpace \<Rightarrow>
          (case getPose frame (meshSpace (xrMeshObject env xrMesh)) referenceSpace of
             None \<Rightarrow> id
           | Some pose \<Rightarrow> copyPose pose))"

text \<open>The object that \<open>updateMeshes\<close> makes for a mesh that it maps for the first time.\<close>

definition createdMesh :: "environment \<Rightarrow> xr_frame \<Rightarrow> xrmesh \<Rightarrow> mesh_detector \<Rightarrow> detected_mesh" where
  "createdMesh env frame h s =
     (poseUpdate env frame h
        (newDetectedMesh (xrMeshObject env h)
           (chooseMaterial s (semanticLabel (xrMeshObject env h)))))
     \<lparr>mesh_rapier := (case physics_of s of None \<Rightarrow> [] | Some p \<Rightarrow> [p])\<rparr>"

text \<open>What the branch for an existing mesh does to its object: new geometry, then the pose.\<close>

definition refreshed :: "environment \<Rightarrow> xr_frame \<Rightarrow> xrmesh \<Rightarrow> detected_mesh \<Rightarrow> detected_mesh" where
  "refreshed env frame h obj =
     poseUpdate env frame h
       (obj\<lparr>mesh_geometry := (vertices (xrMeshObject env h), indices (xrMeshObject env h))\<rparr>)"

section \<open>The culling test in the words of the specification\<close>

text \<open>
  The straight-line distance between two points, and the cosine of the angle between the
  direction from the viewer to the mesh and the viewer's forward vector (the normalised
  direction dotted with forward).
\<close>

definition straightLineDistance :: "vector3 \<Rightarrow> vector3 \<Rightarrow> real" where
  "straightLineDistance p c = sqrt ((vx p - vx c)\<^sup>2 + (vy p - vy c)\<^sup>2 + (vz p - vz c)\<^sup>2)"

definition directionDotForward :: "vector3 \<Rightarrow> vector3 \<Rightarrow> vector3 \<Rightarrow> real" where
  "directionDotForward p c f =
     ((vx p - vx c) * vx f + (vy p - vy c) * vy f + (vz p - vz c) * vz f)
       / straightLineDistance p c"

text \<open>The position that the culling test reads from a pose: the translation of its matrix.\<close>

definition posePosition :: "xr_pose \<Rightarrow> vector3" where
  "posePosition pose = setFromMatrixPosition (fromArray (transform_matrix (transform pose)))"

text \<open>The culling test of one call, with the camera that the call derives from the frame.\<close>

definition meshVisible :: "environment \<Rightarrow> xr_frame \<Rightarrow> refspace \<Rightarrow> xrmesh \<Rightarrow> bool" where
  "meshVisible env frame referenceSpace h =
     shouldShowMeshInView env h (fst (getCameraInfo frame referenceSpace))
       (snd (getCameraInfo frame referenceSpace)) frame referenceSpace"

text \<open>
  How many meshes the second loop has counted when it first comes to \<open>h\<close>: the visible
  ones among those before \<open>h\<close> in the iteration order of the feed.
\<close>

definition processedBefore :: "environment \<Rightarrow> xr_frame \<Rightarrow> refspace \<Rightarrow> xrmesh list \<Rightarrow> xrmesh \<Rightarrow> nat" where
  "processedBefore env frame referenceSpace meshes h =
     length (filter (meshVisible env frame referenceSpace) (takeWhile (\<lambda>x. x \<noteq> h) meshes))"

text \<open>No pose for any space; and a feed of 100001 meshes, the last one being mesh 100000.\<close>

definition noPoses :: "xrspace \<Rightarrow> xr_pose option" where
  "noPoses = (\<lambda>space. None)"

definition crowdedFeed :: "xrmesh list" where
  "crowdedFeed = [0..<100000] @ [100000]"

section \<open>The choice of material in the words of the specification\<close>

text \<open>
  The label-specific debug material of a label, if there is one; and the first that is
  defined of: that material, the wireframe fallback, the invisible default.
\<close>

definition labelMaterial :: "mesh_detector \<Rightarrow> string option \<Rightarrow> material option" where
  "labelMaterial s label = (case label of None \<Rightarrow> None | Some l \<Rightarrow> map_of (debugMaterials s) l)"

definition firstDefinedMaterial :: "mesh_detector \<Rightarrow> string option \<Rightarrow> material" where
  "firstDefinedMaterial s label =
     (case labelMaterial s label of
        Some m \<Rightarrow> m
      | None \<Rightarrow> (case fallbackDebugMaterial s of Some m \<Rightarrow> m | None \<Rightarrow> defaultMaterial))"

text \<open>
  What \<open>init\<close> establishes about the materials: the label-specific ones belong to the known
  labels and are coloured wireframes; the fallback is the black wireframe.
\<close>

definition materialsKnown :: "mesh_detector \<Rightarrow> bool" where
  "materialsKnown s \<longleftrightarrow>
     list_all (\<lambda>(l, mat). l \<in> set SEMANTIC_LABELS \<and> wireframe mat \<and> color mat \<in> set SEMANTIC_COLORS)
        (debugMaterials s) \<and>
     (case fallbackDebugMaterial s of None \<Rightarrow> True | Some f \<Rightarrow> wireframe f \<and> color f = 0)"

section \<open>A small scene for concrete runs\<close>

text \<open>
  A rigid transform that only translates, a clock and reference space, and a frame whose
  viewer stands at the origin and looks down the negative Z axis. Mesh \<open>h\<close> has the space
  \<open>h\<close>; mesh 1 is labelled as floor, the others carry no label.
\<close>

definition translation :: "real \<Rightarrow> real \<Rightarrow> real \<Rightarrow> matrix4" where
  "translation a b c = Matrix4 1 0 0 0  0 1 0 0  0 0 1 0  a b c 1"

definition poseAt :: "real \<Rightarrow> real \<Rightarrow> real \<Rightarrow> xr_pose" where
  "poseAt a b c =
     \<lparr>transform = \<lparr>transform_position = DOMPoint a b c 1,
                   transform_orientation = DOMPoint 0 0 0 1,
                   transform_matrix = translation a b c\<rparr>\<rparr>"

definition sceneEnv :: "real \<Rightarrow> environment" where
  "sceneEnv t =
     \<lparr>performance_now = t, getReferenceSpace = Some 0,
      xrMeshObject = (\<lambda>h. \<lparr>meshSpace = h,
                             semanticLabel = (if h = 1 then Some ''floor'' else None),
                             vertices = [real h], indices = [0]\<rparr>)\<rparr>"

definition sceneFrame :: "xrmesh list \<Rightarrow> (xrspace \<Rightarrow> xr_pose option) \<Rightarrow> xr_frame" where
  "sceneFrame meshes poses =
     \<lparr>detectedMeshes = Some meshes,
      getPose = (\<lambda>space referenceSpace. poses space),
      getViewerPose = (\<lambda>referenceSpace. Some \<lparr>views = [transform (poseAt 0 0 0)]\<rparr>)\<rparr>"

text \<open>Mesh 100000 five units in front of the viewer, every other mesh without a pose.\<close>

definition farPoses :: "xrspace \<Rightarrow> xr_pose option" where
  "farPoses space = (if space = 100000 then Some (poseAt 0 0 (- 5)) else None)"

text \<open>Two runs: one call that maps the meshes 1 and 2, and one call that maps mesh 100000.\<close>

definition twoMeshes :: "call list" where
  "twoMeshes = [UpdateMeshes 0 (sceneEnv 1000) (Some (sceneFrame [1, 2] noPoses))]"

definition oneFarMesh :: "call list" where
  "oneFarMesh = [UpdateMeshes 0 (sceneEnv 1000) (Some (sceneFrame [100000] noPoses))]"

text \<open>
  Further runs: mesh 1 mapped and then culled at five units' distance; mesh 1 mapped one
  unit in front of the viewer; debug visualisations switched on. And the clock and
  reference space of \<open>sceneEnv\<close> with meshes whose vertex data has grown.
\<close>

definition culledRun :: "call list" where
  "culledRun =
     twoMeshes @ [UpdateMeshes 0 (sceneEnv 2000)
                    (Some (sceneFrame [1, 2] (map_of [(1, poseAt 0 0 (- 5))])))]"

definition placedRun :: "call list" where
  "placedRun = [UpdateMeshes 0 (sceneEnv 1000) (Some (sceneFrame [1] (map_of [(1, poseAt 0 0 (- 1))])))]"

definition debugRun :: "call list" where
  "debugRun = [Init \<lparr>showDebugVisualizations = True\<rparr>]"

definition grownEnv :: "real \<Rightarrow> environment" where
  "grownEnv t =
     \<lparr>performance_now = t, getReferenceSpace = Some 0,
      xrMeshObject = (\<lambda>h. \<lparr>meshSpace = h, semanticLabel = None,
                             vertices = [real h, real h + 1], indices = [0, 1]\<rparr>)\<rparr>"

text \<open>A physics engine, and a run that attaches it after the meshes 1 and 2 are mapped.\<close>

definition scenePhysics :: physics where
  "scenePhysics = \<lparr>RAPIER = 7, blendedWorld = 8\<rparr>"

definition physicsRun :: "call list" where
  "physicsRun = twoMeshes @ [InitPhysics scenePhysics]"

section \<open>What each operation leaves alone\<close>

named_theorems frame_simps

lemma modify_fields [frame_simps]:
  "xrMeshToThreeMesh (modify r f s) = xrMeshToThreeMesh s"
  "threeMeshToXrMesh (modify r f s) = threeMeshToXrMesh s"
  "children (modify r f s) = children s"
  "nextRef (modify r f s) = nextRef s"
  "physics_of (modify r f s) = physics_of s"
  "lastMeshUpdateTime (modify r f s) = lastMeshUpdateTime s"
  "debugMaterials (modify r f s) = debugMaterials s"
  "fallbackDebugMaterial (modify r f s) = fallbackDebugMaterial s"
  by (simp_all add: modify_def split: option.splits)

lemma modify_objects [frame_simps]:
  "objects (modify r f s) r' = (if r' = r then map_option f (objects s r) else objects s r')"
  by (simp add: modify_def split: option.splits)

lemma updateMeshPose_fields [frame_simps]:
  "xrMeshToThreeMesh (updateMeshPose env frame x r s) = xrMeshToThreeMesh s"
  "threeMeshToXrMesh (updateMeshPose env frame x r s) = threeMeshToXrMesh s"
  "children (updateMeshPose env frame x r s) = children s"
  "nextRef (updateMeshPose env frame x r s) = nextRef s"
  "physics_of (updateMeshPose env frame x r s) = physics_of s"
  "lastMeshUpdateTime (updateMeshPose env frame x r s) = lastMeshUpdateTime s"
  "debugMaterials (updateMeshPose env frame x r s) = debugMaterials s"
  "fallbackDebugMaterial (updateMeshPose env frame x r s) = fallbackDebugMaterial s"
  by (simp_all add: updateMeshPose_def frame_simps split: option.splits)

lemma removeMesh_fields [frame_simps]:
  "xrMeshToThreeMesh (removeMesh x r s) = AList.delete x (xrMeshToThreeMesh s)"
  "threeMeshToXrMesh (removeMesh x r s) = AList.delete r (threeMeshToXrMesh s)"
  "children (removeMesh x r s) = remove1 r (children s)"
  "nextRef (removeMesh x r s) = nextRef s"
  "physics_of (removeMesh x r s) = physics_of s"
  "lastMeshUpdateTime (removeMesh x r s) = lastMeshUpdateTime s"
  "debugMaterials (removeMesh x r s) = debugMaterials s"
  "fallbackDebugMaterial (removeMesh x r s) = fallbackDebugMaterial s"
  by (simp_all add: removeMesh_def remove_child_def dispose_def frame_simps)

lemma removeMesh_objects [frame_simps]:
  "objects (removeMesh x r s) r' =
     (if r' = r then map_option (\<lambda>obj. obj\<lparr>mesh_disposed := True\<rparr>) (objects s r) else objects s r')"
  by (simp add: removeMesh_def remove_child_def dispose_def frame_simps)

lemma hideMesh_fields [frame_simps]:
  "nextRef (hideMesh x s) = nextRef s"
  "physics_of (hideMesh x s) = physics_of s"
  "lastMeshUpdateTime (hideMesh x s) = lastMeshUpdateTime s"
  "debugMaterials (hideMesh x s) = debugMaterials s"
  "fallbackDebugMaterial (hideMesh x s) = fallbackDebugMaterial s"
  by (simp_all add: hideMesh_def frame_simps split: option.splits)

lemma showMesh_fields [frame_simps]:
  "physics_of (showMesh env frame x s) = physics_of s"
  "lastMeshUpdateTime (showMesh env frame x s) = lastMeshUpdateTime s"
  "debugMaterials (showMesh env frame x s) = debugMaterials s"
  "fallbackDebugMaterial (showMesh env frame x s) = fallbackDebugMaterial s"
  by (simp_all add: showMesh_def createMesh_def add_child_def initRapierPhysics_def updateVertices_def
      Let_def frame_simps split: option.splits)

lemma deleteOldMeshes_fields [frame_simps]:
  "nextRef (deleteOldMeshes meshes es s) = nextRef s"
  "physics_of (deleteOldMeshes meshes es s) = physics_of s"
  "lastMeshUpdateTime (deleteOldMeshes meshes es s) = lastMeshUpdateTime s"
  "debugMaterials (deleteOldMeshes meshes es s) = debugMaterials s"
  "fallbackDebugMaterial (deleteOldMeshes meshes es s) = fallbackDebugMaterial s"
  by (induction meshes es s rule: deleteOldMeshes.induct; simp add: frame_simps)+

lemma processMeshes_fields [frame_simps]:
  "physics_of (processMeshes env frame rs cp cf n xs s) = physics_of s"
  "lastMeshUpdateTime (processMeshes env frame rs cp cf n xs s) = lastMeshUpdateTime s"
  "debugMaterials (processMeshes env frame rs cp cf n xs s) = debugMaterials s"
  "fallbackDebugMaterial (processMeshes env frame rs cp cf n xs s) = fallbackDebugMaterial s"
  by (induction xs arbitrary: n s; simp add: frame_simps)+

lemma updateMeshes_throttled:
  "performance_now env - lastMeshUpdateTime s < MESH_UPDATE_INTERVAL_MS \<Longrightarrow>
   updateMeshes ts env frameOpt s = s"
  by (simp add: updateMeshes_def Let_def split: option.splits)

lemma updateMeshes_lastMeshUpdateTime:
  "frameOpt = Some frame \<Longrightarrow> detectedMeshes frame = Some meshes \<Longrightarrow>
   \<not> performance_now env - lastMeshUpdateTime s < MESH_UPDATE_INTERVAL_MS \<Longrightarrow>
   lastMeshUpdateTime (updateMeshes ts env frameOpt s) = performance_now env"
  by (simp add: updateMeshes_def Let_def frame_simps split: option.splits prod.splits)

section \<open>The invariant\<close>

lemma updateMeshPose_objects [frame_simps]:
  "objects (updateMeshPose env frame x r s) r' =
     (if r' = r then map_option (poseUpdate env frame x) (objects s r) else objects s r')"
  by (cases "objects s r")
     (auto simp: updateMeshPose_def poseUpdate_def frame_simps split: option.splits)

lemma poseUpdate_fields [simp]:
  "mesh_rapier (poseUpdate env frame h obj) = mesh_rapier obj"
  "mesh_material (poseUpdate env frame h obj) = mesh_material obj"
  "mesh_geometry (poseUpdate env frame h obj) = mesh_geometry obj"
  "mesh_disposed (poseUpdate env frame h obj) = mesh_disposed obj"
  by (simp_all add: poseUpdate_def copyPose_def split: option.splits)

lemma createdMesh_fields [simp]:
  "mesh_disposed (createdMesh env frame h s) = False"
  "mesh_material (createdMesh env frame h s) = chooseMaterial s (semanticLabel (xrMeshObject env h))"
  "mesh_geometry (createdMesh env frame h s) = (vertices (xrMeshObject env h), indices (xrMeshObject env h))"
  "mesh_rapier (createdMesh env frame h s) = (case physics_of s of None \<Rightarrow> [] | Some p \<Rightarrow> [p])"
  by (simp_all add: createdMesh_def newDetectedMesh_def)

lemma showMesh_update:
  assumes "map_of (xrMeshToThreeMesh s) h = Some m"
  shows "xrMeshToThreeMesh (showMesh env frame h s) = xrMeshToThreeMesh s"
    and "threeMeshToXrMesh (showMesh env frame h s) = threeMeshToXrMesh s"
    and "children (showMesh env frame h s) = children s"
    and "nextRef (showMesh env frame h s) = nextRef s"
    and "objects (showMesh env frame h s) r =
           (if r = m
            then map_option (\<lambda>obj. poseUpdate env frame h
                    (obj\<lparr>mesh_geometry := (vertices (xrMeshObject env h), indices (xrMeshObject env h))\<rparr>))
                   (objects s m)
            else objects s r)"
  using assms
  by (cases "objects s m"; simp add: showMesh_def updateVertices_def frame_simps)+

lemma showMesh_create:
  assumes "map_of (xrMeshToThreeMesh s) h = None"
  shows "xrMeshToThreeMesh (showMesh env frame h s) = AList.update h (nextRef s) (xrMeshToThreeMesh s)"
    and "threeMeshToXrMesh (showMesh env frame h s) = AList.update (nextRef s) h (threeMeshToXrMesh s)"
    and "children (showMesh env frame h s) = remove1 (nextRef s) (children s) @ [nextRef s]"
    and "nextRef (showMesh env frame h s) = Suc (nextRef s)"
    and "objects (showMesh env frame h s) r =
           (if r = nextRef s then Some (createdMesh env frame h s) else objects s r)"
  using assms
  by (simp_all add: showMesh_def createMesh_def add_child_def initRapierPhysics_def createdMesh_def
      newDetectedMesh_def Let_def frame_simps split: option.splits)

lemma objectLive_removeMesh:
  "objectLive (removeMesh x r s) r' \<longleftrightarrow> r' \<noteq> r \<and> objectLive s r'"
  by (auto simp: objectLive_def frame_simps split: option.splits)

lemma objectLive_showMesh_update:
  "map_of (xrMeshToThreeMesh s) h = Some m \<Longrightarrow>
   objectLive (showMesh env frame h s) r \<longleftrightarrow> objectLive s r"
  by (auto simp: objectLive_def showMesh_update split: option.splits)

lemma objectLive_showMesh_create:
  "map_of (xrMeshToThreeMesh s) h = None \<Longrightarrow>
   objectLive (showMesh env frame h s) r \<longleftrightarrow> r = nextRef s \<or> objectLive s r"
  by (auto simp: objectLive_def showMesh_create split: option.splits)

lemma list_all_map_of:
  "distinct (map fst al) \<Longrightarrow>
   list_all (\<lambda>(k, v). P k v) al \<longleftrightarrow> (\<forall>k v. map_of al k = Some v \<longrightarrow> P k v)"
  by (auto simp: list_all_iff)

lemma wellFormed_iff:
  "wellFormed s \<longleftrightarrow>
     distinct (map fst (xrMeshToThreeMesh s)) \<and>
     distinct (map fst (threeMeshToXrMesh s)) \<and>
     (\<forall>h m. map_of (xrMeshToThreeMesh s) h = Some m \<longrightarrow>
        map_of (threeMeshToXrMesh s) m = Some h \<and> m < nextRef s \<and> objectLive s m \<and>
        m \<in> set (children s)) \<and>
     (\<forall>m h. map_of (threeMeshToXrMesh s) m = Some h \<longrightarrow> map_of (xrMeshToThreeMesh s) h = Some m) \<and>
     distinct (children s) \<and>
     (\<forall>r\<in>set (children s). r < nextRef s \<and> map_of (threeMeshToXrMesh s) r \<noteq> None)"
  unfolding wellFormed_def
  by (auto simp: list_all_map_of) (auto simp: list_all_iff)

lemma wellFormed_new: "wellFormed newMeshDetector"
  by (simp add: wellFormed_def newMeshDetector_def)

lemma wellFormedD:
  assumes "wellFormed s"
  shows "distinct (map fst (xrMeshToThreeMesh s))"
    and "distinct (map fst (threeMeshToXrMesh s))"
    and "\<And>h m. map_of (xrMeshToThreeMesh s) h = Some m \<Longrightarrow> map_of (threeMeshToXrMesh s) m = Some h"
    and "\<And>h m. map_of (xrMeshToThreeMesh s) h = Some m \<Longrightarrow> m < nextRef s"
    and "\<And>h m. map_of (xrMeshToThreeMesh s) h = Some m \<Longrightarrow> objectLive s m"
    and "\<And>h m. map_of (threeMeshToXrMesh s) m = Some h \<Longrightarrow> map_of (xrMeshToThreeMesh s) h = Some m"
    and "distinct (children s)"
    and "\<And>r. r \<in> set (children s) \<Longrightarrow> r < nextRef s"
    and "\<And>h m. map_of (xrMeshToThreeMesh s) h = Some m \<Longrightarrow> m \<in> set (children s)"
    and "\<And>r. r \<in> set (children s) \<Longrightarrow> map_of (threeMeshToXrMesh s) r \<noteq> None"
  using assms unfolding wellFormed_iff by blast+

lemma wellFormedI:
  assumes "distinct (map fst (xrMeshToThreeMesh s))"
    and "distinct (map fst (threeMeshToXrMesh s))"
    and "\<And>h m. map_of (xrMeshToThreeMesh s) h = Some m \<Longrightarrow> map_of (threeMeshToXrMesh s) m = Some h"
    and "\<And>h m. map_of (xrMeshToThreeMesh s) h = Some m \<Longrightarrow> m < nextRef s"
    and "\<And>h m. map_of (xrMeshToThreeMesh s) h = Some m \<Longrightarrow> objectLive s m"
    and "\<And>h m. map_of (threeMeshToXrMesh s) m = Some h \<Longrightarrow> map_of (xrMeshToThreeMesh s) h = Some m"
    and "distinct (children s)"
    and "\<And>r. r \<in> set (children s) \<Longrightarrow> r < nextRef s"
    and "\<And>h m. map_of (xrMeshToThreeMesh s) h = Some m \<Longrightarrow> m \<in> set (children s)"
    and "\<And>r. r \<in> set (children s) \<Longrightarrow> map_of (threeMeshToXrMesh s) r \<noteq> None"
  shows "wellFormed s"
  using assms unfolding wellFormed_iff by blast

text \<open>Two handles with the same object are the same handle.\<close>

lemma wellFormed_inj:
  assumes "wellFormed s"
    and "map_of (xrMeshToThreeMesh s) h = Some m" and "map_of (xrMeshToThreeMesh s) h' = Some m"
  shows "h' = h"
  using wellFormedD(3) [OF assms(1,2)] wellFormedD(3) [OF assms(1,3)] by simp

lemma wellFormed_removeMesh:
  assumes wf: "wellFormed s" and hm: "map_of (xrMeshToThreeMesh s) h = Some m"
  shows "wellFormed (removeMesh h m s)"
proof (rule wellFormedI)
  note D = wellFormedD [OF wf]
  have ch: "set (children (removeMesh h m s)) = set (children s) - {m}"
    by (simp add: frame_simps D(7))
  show "distinct (map fst (xrMeshToThreeMesh (removeMesh h m s)))"
    by (simp add: frame_simps AList.distinct_delete D(1))
  show "distinct (map fst (threeMeshToXrMesh (removeMesh h m s)))"
    by (simp add: frame_simps AList.distinct_delete D(2))
  show "distinct (children (removeMesh h m s))"
    by (simp add: frame_simps D(7))
  show "r < nextRef (removeMesh h m s)" if "r \<in> set (children (removeMesh h m s))" for r
    using that D(8) [of r] unfolding ch by (simp add: frame_simps)
  show "map_of (threeMeshToXrMesh (removeMesh h m s)) r \<noteq> None"
    if "r \<in> set (children (removeMesh h m s))" for r
    using that D(10) [of r] unfolding ch by (simp add: frame_simps AList.delete_conv')
  have mh: "map_of (threeMeshToXrMesh s) m = Some h"
    using D(3) [OF hm] .
  {
    fix h' m'
    assume a: "map_of (xrMeshToThreeMesh (removeMesh h m s)) h' = Some m'"
    then have ne: "h' \<noteq> h" and old: "map_of (xrMeshToThreeMesh s) h' = Some m'"
      by (auto simp: frame_simps AList.delete_conv' split: if_splits)
    have r: "map_of (threeMeshToXrMesh s) m' = Some h'"
      using D(3) [OF old] .
    with mh ne have nm: "m' \<noteq> m" by auto
    show "map_of (threeMeshToXrMesh (removeMesh h m s)) m' = Some h'"
      using nm r by (simp add: frame_simps AList.delete_conv')
    show "m' < nextRef (removeMesh h m s)"
      using D(4) [OF old] by (simp add: frame_simps)
    show "objectLive (removeMesh h m s) m'"
      using D(5) [OF old] nm by (simp add: objectLive_removeMesh)
    show "m' \<in> set (children (removeMesh h m s))"
      using D(9) [OF old] nm by (simp add: ch)
  }
  {
    fix h' m'
    assume a: "map_of (threeMeshToXrMesh (removeMesh h m s)) m' = Some h'"
    then have nm: "m' \<noteq> m" and old: "map_of (threeMeshToXrMesh s) m' = Some h'"
      by (auto simp: frame_simps AList.delete_conv' split: if_splits)
    have f: "map_of (xrMeshToThreeMesh s) h' = Some m'"
      using D(6) [OF old] .
    with hm nm have ne: "h' \<noteq> h" by auto
    show "map_of (xrMeshToThreeMesh (removeMesh h m s)) h' = Some m'"
      using ne f by (simp add: frame_simps AList.delete_conv')
  }
qed

lemma wellFormed_hideMesh: "wellFormed s \<Longrightarrow> wellFormed (hideMesh h s)"
  by (simp add: hideMesh_def wellFormed_removeMesh split: option.splits)

lemma wellFormed_showMesh:
  assumes wf: "wellFormed s"
  shows "wellFormed (showMesh env frame h s)"
proof (cases "map_of (xrMeshToThreeMesh s) h")
  case (Some m)
  note U = showMesh_update(1-4) [OF Some, of env frame] objectLive_showMesh_update [OF Some, of env frame]
  note D = wellFormedD [OF wf]
  show ?thesis
    by (rule wellFormedI) (use D in \<open>auto simp: U\<close>)
next
  case None
  note C = showMesh_create(1-4) [OF None, of env frame] objectLive_showMesh_create [OF None, of env frame]
  note D = wellFormedD [OF wf]
  let ?n = "nextRef s"
  have fresh_c: "?n \<notin> set (children s)"
    using D(8) [of ?n] by auto
  have ch: "children (showMesh env frame h s) = children s @ [?n]"
    using fresh_c by (simp add: C remove1_idem)
  show ?thesis
  proof (rule wellFormedI)
    show "distinct (map fst (xrMeshToThreeMesh (showMesh env frame h s)))"
      by (simp add: C AList.distinct_update D(1))
    show "distinct (map fst (threeMeshToXrMesh (showMesh env frame h s)))"
      by (simp add: C AList.distinct_update D(2))
    show "distinct (children (showMesh env frame h s))"
      using fresh_c D(7) by (simp add: ch)
    show "r < nextRef (showMesh env frame h s)" if "r \<in> set (children (showMesh env frame h s))" for r
      using that D(8) [of r] by (auto simp: ch C)
    show "map_of (threeMeshToXrMesh (showMesh env frame h s)) r \<noteq> None"
      if "r \<in> set (children (showMesh env frame h s))" for r
      using that D(10) [of r] by (auto simp: ch C AList.update_conv')
    {
      fix h' m'
      assume a: "map_of (xrMeshToThreeMesh (showMesh env frame h s)) h' = Some m'"
      then consider "h' = h" "m' = ?n" | "h' \<noteq> h" "map_of (xrMeshToThreeMesh s) h' = Some m'"
        by (auto simp: C AList.update_conv' split: if_splits)
      then have "map_of (threeMeshToXrMesh (showMesh env frame h s)) m' = Some h'
            \<and> m' < nextRef (showMesh env frame h s)
            \<and> objectLive (showMesh env frame h s) m'
            \<and> m' \<in> set (children (showMesh env frame h s))"
      proof cases
        case 1
        then show ?thesis by (simp add: C ch AList.update_conv')
      next
        case 2
        from D(4) [OF 2(2)] have "m' \<noteq> ?n" "m' < Suc ?n" by auto
        with D(3) [OF 2(2)] D(5) [OF 2(2)] D(9) [OF 2(2)] show ?thesis
          by (simp add: C ch AList.update_conv')
      qed
      then show "map_of (threeMeshToXrMesh (showMesh env frame h s)) m' = Some h'"
        and "m' < nextRef (showMesh env frame h s)"
        and "objectLive (showMesh env frame h s) m'"
        and "m' \<in> set (children (showMesh env frame h s))"
        by blast+
    }
    {
      fix h' m'
      assume a: "map_of (threeMeshToXrMesh (showMesh env frame h s)) m' = Some h'"
      then consider "h' = h" "m' = ?n" | "m' \<noteq> ?n" "map_of (threeMeshToXrMesh s) m' = Some h'"
        by (auto simp: C AList.update_conv' split: if_splits)
      then show "map_of (xrMeshToThreeMesh (showMesh env frame h s)) h' = Some m'"
      proof cases
        case 1
        then show ?thesis by (simp add: C AList.update_conv')
      next
        case 2
        from D(6) [OF 2(2)] None have "h' \<noteq> h" by auto
        with D(6) [OF 2(2)] show ?thesis by (simp add: C AList.update_conv')
      qed
    }
  qed
qed

lemma wellFormed_processMeshes:
  "wellFormed s \<Longrightarrow> wellFormed (processMeshes env frame rs cp cf n xs s)"
  by (induction xs arbitrary: n s) (simp_all add: wellFormed_hideMesh wellFormed_showMesh)

text \<open>The first loop: the entries still to visit are entries of the map.\<close>

lemma wellFormed_deleteOldMeshes_aux:
  "wellFormed s \<Longrightarrow> distinct (map fst es) \<Longrightarrow>
   (\<forall>(h, m) \<in> set es. map_of (xrMeshToThreeMesh s) h = Some m) \<Longrightarrow>
   wellFormed (deleteOldMeshes meshes es s)"
proof (induction meshes es s rule: deleteOldMeshes.induct)
  case (1 meshes s)
  then show ?case by simp
next
  case (2 meshes xrMesh threeMesh entries s)
  let ?s' = "if xrMesh \<notin> set meshes then removeMesh xrMesh threeMesh s else s"
  from 2(4) have hm: "map_of (xrMeshToThreeMesh s) xrMesh = Some threeMesh" by simp
  have wf': "wellFormed ?s'"
    using 2(2) hm by (simp add: wellFormed_removeMesh)
  have rest: "\<forall>(h, m) \<in> set entries. map_of (xrMeshToThreeMesh ?s') h = Some m"
  proof (clarify)
    fix h m assume hm: "(h, m) \<in> set entries"
    with 2(3) have "h \<noteq> xrMesh" by force
    moreover from 2(4) hm have "map_of (xrMeshToThreeMesh s) h = Some m" by auto
    ultimately show "map_of (xrMeshToThreeMesh ?s') h = Some m"
      by (simp add: frame_simps)
  qed
  from 2(3) have "distinct (map fst entries)" by simp
  from "2.IH" [OF wf' this rest] show ?case by simp
qed

lemma wellFormed_deleteOldMeshes:
  assumes "wellFormed s"
  shows "wellFormed (deleteOldMeshes meshes (xrMeshToThreeMesh s) s)"
proof -
  have d: "distinct (map fst (xrMeshToThreeMesh s))"
    using wellFormedD(1) [OF assms] .
  then have "\<forall>(h, m) \<in> set (xrMeshToThreeMesh s). map_of (xrMeshToThreeMesh s) h = Some m"
    by auto
  from wellFormed_deleteOldMeshes_aux [OF assms d this] show ?thesis .
qed

lemma wellFormed_eq:
  assumes "wellFormed s"
    and "xrMeshToThreeMesh s' = xrMeshToThreeMesh s" and "threeMeshToXrMesh s' = threeMeshToXrMesh s"
    and "children s' = children s" and "nextRef s' = nextRef s"
    and "\<And>r. objectLive s' r = objectLive s r"
  shows "wellFormed s'"
  using assms(1) unfolding wellFormed_def assms(2-) .

lemma wellFormed_lastMeshUpdateTime:
  "wellFormed s \<Longrightarrow> wellFormed (s\<lparr>lastMeshUpdateTime := t\<rparr>)"
  by (erule wellFormed_eq) (simp_all add: objectLive_def)

lemma wellFormed_updateMeshes:
  assumes "wellFormed s"
  shows "wellFormed (updateMeshes ts env frameOpt s)"
proof -
  have "wellFormed (processMeshes env frame rs cp cf 0 meshes
          (deleteOldMeshes meshes (xrMeshToThreeMesh (s\<lparr>lastMeshUpdateTime := t\<rparr>))
             (s\<lparr>lastMeshUpdateTime := t\<rparr>)))" for frame rs cp cf meshes t
    by (intro wellFormed_processMeshes wellFormed_deleteOldMeshes wellFormed_lastMeshUpdateTime assms)
  then show ?thesis
    using assms
    by (simp add: updateMeshes_def Let_def wellFormed_lastMeshUpdateTime
        split: option.splits prod.splits)
qed

lemma wellFormed_init: "wellFormed s \<Longrightarrow> wellFormed (init options s)"
  by (cases "showDebugVisualizations options"; simp add: init_def)
     (erule wellFormed_eq; simp add: objectLive_def)

lemma objectLive_initRapierPhysics:
  "objectLive (initRapierPhysics m p s) r = objectLive s r"
  by (auto simp: objectLive_def initRapierPhysics_def frame_simps split: option.splits)

lemma wellFormed_initRapierPhysics: "wellFormed s \<Longrightarrow> wellFormed (initRapierPhysics m p s)"
  by (erule wellFormed_eq) (simp_all add: objectLive_initRapierPhysics, simp_all add: initRapierPhysics_def frame_simps)

lemma wellFormed_foldl_initRapierPhysics:
  "wellFormed s \<Longrightarrow> wellFormed (foldl (\<lambda>t (_, mesh). initRapierPhysics mesh p t) s es)"
  by (induction es arbitrary: s) (simp_all add: wellFormed_initRapierPhysics split: prod.splits)

lemma wellFormed_initPhysics: "wellFormed s \<Longrightarrow> wellFormed (initPhysics p s)"
  unfolding initPhysics_def
  by (rule wellFormed_foldl_initRapierPhysics) (erule wellFormed_eq; simp add: objectLive_def)

lemma wellFormed_call_step: "wellFormed s \<Longrightarrow> wellFormed (call_step s c)"
  by (cases c) (simp_all add: wellFormed_init wellFormed_initPhysics wellFormed_updateMeshes)

lemma wellFormed_foldl: "wellFormed s \<Longrightarrow> wellFormed (foldl call_step s calls)"
  by (induction calls arbitrary: s) (simp_all add: wellFormed_call_step)

lemma wellFormed_run: "wellFormed (run calls)"
  unfolding run_def by (rule wellFormed_foldl) (rule wellFormed_new)

section \<open>Evaluating the scene\<close>

lemma sqrt_consts [simp]: "sqrt 25 = 5" "sqrt 9 = 3" "sqrt 4 = 2"
  by (rule real_sqrt_unique; simp)+

lemmas eval_defs = updateMeshes_def sceneEnv_def grownEnv_def sceneFrame_def poseAt_def translation_def
  newMeshDetector_def getCameraInfo_def fromArray_def shouldShowMeshInView_def
  kMaxViewDistance_def kFOVCosThreshold_def MESH_UPDATE_INTERVAL_MS_def
  MAX_MESHES_PER_FRAME_def showMesh_def hideMesh_def removeMesh_def createMesh_def
  updateMeshPose_def copyPose_def chooseMaterial_def add_child_def remove_child_def modify_def
  dispose_def updateVertices_def initRapierPhysics_def newDetectedMesh_def defaultMaterial_def
  MeshBasicMaterial_def Let_def

section \<open>The culling test\<close>

lemma distance_eq:
  "sqrt ((vx p - vx c) * (vx p - vx c) + (vy p - vy c) * (vy p - vy c) + (vz p - vz c) * (vz p - vz c))
     = straightLineDistance p c"
  by (simp add: straightLineDistance_def power2_eq_square)

lemma dot_eq:
  "(vx p - vx c) * (1 / straightLineDistance p c) * vx f
   + (vy p - vy c) * (1 / straightLineDistance p c) * vy f
   + (vz p - vz c) * (1 / straightLineDistance p c) * vz f
     = directionDotForward p c f"
  by (simp add: directionDotForward_def add_divide_distrib)

lemma shouldShowMeshInView_iff:
  assumes "getPose frame (meshSpace (xrMeshObject env mesh)) referenceSpace = Some meshPose"
  shows "shouldShowMeshInView env mesh c f frame referenceSpace \<longleftrightarrow>
     \<not> (straightLineDistance (posePosition meshPose) c > 3
        \<or> (straightLineDistance (posePosition meshPose) c > 1 / 1000
           \<and> directionDotForward (posePosition meshPose) c f < 1 / 4))"
proof -
  have "shouldShowMeshInView env mesh c f frame referenceSpace =
      (if straightLineDistance (posePosition meshPose) c > kMaxViewDistance then False
       else if straightLineDistance (posePosition meshPose) c > 1 / 1000 then
         (if directionDotForward (posePosition meshPose) c f < kFOVCosThreshold then False else True)
       else True)"
    unfolding shouldShowMeshInView_def assms option.case Let_def posePosition_def [symmetric]
      distance_eq dot_eq ..
  then show ?thesis
    by (simp add: kMaxViewDistance_def kFOVCosThreshold_def)
qed

section \<open>The two loops\<close>

lemma updateMeshes_eligible:
  assumes "detectedMeshes frame = Some meshes"
    and "\<not> performance_now env - lastMeshUpdateTime s < MESH_UPDATE_INTERVAL_MS"
    and "getReferenceSpace env = Some rs"
  shows "updateMeshes ts env (Some frame) s =
     processMeshes env frame rs (fst (getCameraInfo frame rs)) (snd (getCameraInfo frame rs)) 0 meshes
       (deleteOldMeshes meshes (xrMeshToThreeMesh s) (s\<lparr>lastMeshUpdateTime := performance_now env\<rparr>))"
  using assms by (simp add: updateMeshes_def Let_def split: prod.splits)

lemma refreshed_idem [simp]: "refreshed env frame h (refreshed env frame h obj) = refreshed env frame h obj"
  by (simp add: refreshed_def poseUpdate_def copyPose_def split: option.splits)

lemma refreshed_createdMesh [simp]:
  "refreshed env frame h (createdMesh env frame h s) = createdMesh env frame h s"
  by (simp add: refreshed_def createdMesh_def poseUpdate_def copyPose_def newDetectedMesh_def
      split: option.splits)

lemma refreshed_fields [simp]:
  "mesh_rapier (refreshed env frame h obj) = mesh_rapier obj"
  "mesh_material (refreshed env frame h obj) = mesh_material obj"
  "mesh_geometry (refreshed env frame h obj) = (vertices (xrMeshObject env h), indices (xrMeshObject env h))"
  "mesh_disposed (refreshed env frame h obj) = mesh_disposed obj"
  by (simp_all add: refreshed_def)

lemma showMesh_update_objects:
  assumes "map_of (xrMeshToThreeMesh s) h = Some m"
  shows "objects (showMesh env frame h s) r =
           (if r = m then map_option (refreshed env frame h) (objects s m) else objects s r)"
  using showMesh_update(5) [OF assms, of env frame r] by (simp add: refreshed_def [abs_def])

lemma createdMesh_cong:
  assumes "debugMaterials s' = debugMaterials s" and "fallbackDebugMaterial s' = fallbackDebugMaterial s"
    and "physics_of s' = physics_of s"
  shows "createdMesh env frame h s' = createdMesh env frame h s"
  unfolding createdMesh_def chooseMaterial_def assms ..

lemma createdMesh_steps [simp]:
  "createdMesh env frame h (showMesh env' frame' x s) = createdMesh env frame h s"
  "createdMesh env frame h (hideMesh x s) = createdMesh env frame h s"
  "createdMesh env frame h (deleteOldMeshes meshes es s) = createdMesh env frame h s"
  "createdMesh env frame h (processMeshes env' frame' rs cp cf n xs s) = createdMesh env frame h s"
  "createdMesh env frame h (s\<lparr>lastMeshUpdateTime := t\<rparr>) = createdMesh env frame h s"
  by (rule createdMesh_cong; simp add: frame_simps)+

subsection \<open>The first loop\<close>

lemma deleteOldMeshes_forward:
  "map_of (xrMeshToThreeMesh (deleteOldMeshes meshes es s)) h =
     (if h \<in> fst ` set es \<and> h \<notin> set meshes then None else map_of (xrMeshToThreeMesh s) h)"
  by (induction meshes es s rule: deleteOldMeshes.induct)
     (auto simp: frame_simps AList.delete_conv')

lemma deleteOldMeshes_reverse:
  "map_of (threeMeshToXrMesh (deleteOldMeshes meshes es s)) m =
     (if \<exists>h. (h, m) \<in> set es \<and> h \<notin> set meshes then None else map_of (threeMeshToXrMesh s) m)"
proof (induction meshes es s rule: deleteOldMeshes.induct)
  case (1 meshes s)
  then show ?case by simp
next
  case (2 meshes xrMesh threeMesh entries s)
  show ?case
  proof (cases "xrMesh \<in> set meshes")
    case True
    with 2 show ?thesis by auto
  next
    case False
    with 2 show ?thesis
      by (cases "m = threeMesh") (auto simp: frame_simps AList.delete_conv')
  qed
qed

lemma deleteOldMeshes_objects:
  "objects (deleteOldMeshes meshes es s) r =
     (if \<exists>h. (h, r) \<in> set es \<and> h \<notin> set meshes
      then map_option (\<lambda>obj. obj\<lparr>mesh_disposed := True\<rparr>) (objects s r) else objects s r)"
proof (induction meshes es s rule: deleteOldMeshes.induct)
  case (1 meshes s)
  then show ?case by simp
next
  case (2 meshes xrMesh threeMesh entries s)
  show ?case
  proof (cases "xrMesh \<in> set meshes")
    case True
    with 2 show ?thesis by auto
  next
    case False
    with 2 show ?thesis
      by (cases "r = threeMesh") (auto simp: frame_simps option.map_comp comp_def)
  qed
qed

lemma deleteOldMeshes_children:
  "distinct (children s) \<Longrightarrow>
   distinct (children (deleteOldMeshes meshes es s)) \<and>
   set (children (deleteOldMeshes meshes es s))
     = set (children s) - {r. \<exists>h. (h, r) \<in> set es \<and> h \<notin> set meshes}"
proof (induction meshes es s rule: deleteOldMeshes.induct)
  case (1 meshes s)
  then show ?case by simp
next
  case (2 meshes xrMesh threeMesh entries s)
  show ?case
  proof (cases "xrMesh \<in> set meshes")
    case True
    with 2 show ?thesis by auto
  next
    case False
    have d: "distinct (children (removeMesh xrMesh threeMesh s))"
      using 2(2) by (simp add: frame_simps)
    have c: "set (children (removeMesh xrMesh threeMesh s)) = set (children s) - {threeMesh}"
      using 2(2) by (simp add: frame_simps)
    from "2.IH" d False
    have "distinct (children (deleteOldMeshes meshes entries (removeMesh xrMesh threeMesh s)))"
      and "set (children (deleteOldMeshes meshes entries (removeMesh xrMesh threeMesh s)))
        = set (children (removeMesh xrMesh threeMesh s)) - {r. \<exists>h. (h, r) \<in> set entries \<and> h \<notin> set meshes}"
      by simp_all
    with False show ?thesis unfolding c by auto
  qed
qed

subsection \<open>One step of the second loop\<close>

lemma hideMesh_forward:
  "map_of (xrMeshToThreeMesh (hideMesh x s)) h =
     (if h = x then None else map_of (xrMeshToThreeMesh s) h)"
  by (auto simp: hideMesh_def frame_simps AList.delete_conv' split: option.splits)

lemma hideMesh_reverse:
  "map_of (threeMeshToXrMesh (hideMesh x s)) m =
     (if map_of (xrMeshToThreeMesh s) x = Some m then None else map_of (threeMeshToXrMesh s) m)"
  by (auto simp: hideMesh_def frame_simps AList.delete_conv' split: option.splits)

lemma hideMesh_children:
  "children (hideMesh x s) =
     (case map_of (xrMeshToThreeMesh s) x of None \<Rightarrow> children s | Some m \<Rightarrow> remove1 m (children s))"
  by (auto simp: hideMesh_def frame_simps split: option.splits)

lemma hideMesh_objects:
  "objects (hideMesh x s) r =
     (if map_of (xrMeshToThreeMesh s) x = Some r
      then map_option (\<lambda>obj. obj\<lparr>mesh_disposed := True\<rparr>) (objects s r) else objects s r)"
  by (auto simp: hideMesh_def frame_simps split: option.splits)

lemma showMesh_forward_other:
  "h \<noteq> x \<Longrightarrow> map_of (xrMeshToThreeMesh (showMesh env frame x s)) h = map_of (xrMeshToThreeMesh s) h"
  by (cases "map_of (xrMeshToThreeMesh s) x")
     (simp_all add: showMesh_create showMesh_update AList.update_conv')

lemma nextRef_showMesh: "nextRef s \<le> nextRef (showMesh env frame x s)"
  by (cases "map_of (xrMeshToThreeMesh s) x") (simp_all add: showMesh_create showMesh_update)

lemma nextRef_processMeshes: "nextRef s \<le> nextRef (processMeshes env frame rs cp cf n xs s)"
proof (induction xs arbitrary: n s)
  case Nil
  then show ?case by simp
next
  case (Cons x xs)
  have "nextRef s \<le> nextRef (showMesh env frame x s)" by (rule nextRef_showMesh)
  also have "\<dots> \<le> nextRef (processMeshes env frame rs cp cf (Suc n) xs (showMesh env frame x s))"
    by (rule Cons.IH)
  finally have 1: "nextRef s \<le> nextRef (processMeshes env frame rs cp cf (Suc n) xs (showMesh env frame x s))" .
  have 2: "nextRef s \<le> nextRef (processMeshes env frame rs cp cf n xs (hideMesh x s))"
    using Cons.IH [where n = n and s = "hideMesh x s"] by (simp add: frame_simps)
  show ?case using 1 2 by simp
qed

subsection \<open>The counter and the break\<close>

lemma processMeshes_full:
  "MAX_MESHES_PER_FRAME \<le> n \<Longrightarrow> processMeshes env frame rs cp cf n xs s = s"
  by (cases xs) simp_all

lemma processMeshes_append:
  "processMeshes env frame rs cp cf n (xs @ ys) s =
     processMeshes env frame rs cp cf
       (n + length (filter (\<lambda>x. shouldShowMeshInView env x cp cf frame rs) xs)) ys
       (processMeshes env frame rs cp cf n xs s)"
proof (induction xs arbitrary: n s)
  case Nil
  then show ?case by simp
next
  case (Cons x xs)
  show ?case
  proof (cases "MAX_MESHES_PER_FRAME \<le> n")
    case True
    then show ?thesis by (simp add: processMeshes_full)
  next
    case False
    then show ?thesis by (simp add: Cons.IH)
  qed
qed

lemma processMeshes_untouched:
  "h \<notin> set xs \<Longrightarrow>
   map_of (xrMeshToThreeMesh (processMeshes env frame rs cp cf n xs s)) h
     = map_of (xrMeshToThreeMesh s) h"
  by (induction xs arbitrary: n s) (auto simp: hideMesh_forward showMesh_forward_other)

subsection \<open>A mesh that has been taken out stays out\<close>

lemma meshRemoved_hideMesh:
  assumes "meshRemoved h m s"
  shows "meshRemoved h m (hideMesh x s)"
proof -
  from assms have a: "map_of (xrMeshToThreeMesh s) h = None" "map_of (threeMeshToXrMesh s) m = None"
    "m \<notin> set (children s)"
    and b: "case objects s m of None \<Rightarrow> False | Some obj \<Rightarrow> mesh_disposed obj"
    by (simp_all add: meshRemoved_def)
  have "m \<notin> set (children (hideMesh x s))"
    using a(3) by (auto simp: hideMesh_children split: option.splits dest: notin_set_remove1)
  moreover have "case objects (hideMesh x s) m of None \<Rightarrow> False | Some obj \<Rightarrow> mesh_disposed obj"
    using b by (cases "objects s m") (simp_all add: hideMesh_objects)
  ultimately show ?thesis
    using a by (simp add: meshRemoved_def hideMesh_forward hideMesh_reverse)
qed

lemma meshRemoved_showMesh:
  assumes "x \<noteq> h" and "meshRemoved h m s" and "m < nextRef s"
  shows "meshRemoved h m (showMesh env frame x s)"
proof -
  from assms(2) have a: "map_of (xrMeshToThreeMesh s) h = None" "map_of (threeMeshToXrMesh s) m = None"
    "m \<notin> set (children s)"
    and b: "case objects s m of None \<Rightarrow> False | Some obj \<Rightarrow> mesh_disposed obj"
    by (simp_all add: meshRemoved_def)
  show ?thesis
  proof (cases "map_of (xrMeshToThreeMesh s) x")
    case None
    have "m \<notin> set (children (showMesh env frame x s))"
      using a(3) assms(3) by (auto simp: showMesh_create [OF None] dest: notin_set_remove1)
    then show ?thesis
      using a b assms(1,3)
      by (simp add: meshRemoved_def showMesh_create [OF None] AList.update_conv')
  next
    case (Some mx)
    have "case objects (showMesh env frame x s) m of None \<Rightarrow> False | Some obj \<Rightarrow> mesh_disposed obj"
      using b by (cases "objects s m") (auto simp: showMesh_update_objects [OF Some])
    then show ?thesis
      using a by (simp add: meshRemoved_def showMesh_update(1-3) [OF Some])
  qed
qed

lemma meshRemoved_processMeshes:
  "h \<notin> set xs \<or> \<not> shouldShowMeshInView env h cp cf frame rs \<Longrightarrow>
   meshRemoved h m s \<Longrightarrow> m < nextRef s \<Longrightarrow>
   meshRemoved h m (processMeshes env frame rs cp cf n xs s)"
proof (induction xs arbitrary: n s)
  case Nil
  then show ?case by simp
next
  case (Cons x xs)
  from Cons.prems(1) have rest: "h \<notin> set xs \<or> \<not> shouldShowMeshInView env h cp cf frame rs"
    by auto
  show ?case
  proof (cases "MAX_MESHES_PER_FRAME \<le> n")
    case True
    with Cons.prems show ?thesis by simp
  next
    case False
    show ?thesis
    proof (cases "shouldShowMeshInView env x cp cf frame rs")
      case True
      with Cons.prems(1) have ne: "x \<noteq> h" by auto
      have 1: "meshRemoved h m (showMesh env frame x s)"
        using ne Cons.prems(2,3) by (rule meshRemoved_showMesh)
      have 2: "m < nextRef (showMesh env frame x s)"
        using Cons.prems(3) nextRef_showMesh [of s env frame x] by simp
      from Cons.IH [OF rest 1 2] False True show ?thesis by simp
    next
      case vis: False
      have 1: "meshRemoved h m (hideMesh x s)"
        using Cons.prems(2) by (rule meshRemoved_hideMesh)
      have 2: "m < nextRef (hideMesh x s)"
        using Cons.prems(3) by (simp add: frame_simps)
      from Cons.IH [OF rest 1 2] False vis show ?thesis by simp
    qed
  qed
qed

subsection \<open>A mesh that is shown keeps its object\<close>

lemma kept_hideMesh:
  assumes "wellFormed s" and "map_of (xrMeshToThreeMesh s) h = Some m" and "x \<noteq> h"
  shows "map_of (xrMeshToThreeMesh (hideMesh x s)) h = Some m"
    and "objects (hideMesh x s) m = objects s m"
  using assms wellFormed_inj [OF assms(1,2), of x]
  by (auto simp: hideMesh_forward hideMesh_objects)

lemma kept_showMesh_other:
  assumes "wellFormed s" and "map_of (xrMeshToThreeMesh s) h = Some m" and "x \<noteq> h"
  shows "map_of (xrMeshToThreeMesh (showMesh env frame x s)) h = Some m"
    and "objects (showMesh env frame x s) m = objects s m"
proof -
  show "map_of (xrMeshToThreeMesh (showMesh env frame x s)) h = Some m"
    using assms(2,3) by (simp add: showMesh_forward_other)
  show "objects (showMesh env frame x s) m = objects s m"
  proof (cases "map_of (xrMeshToThreeMesh s) x")
    case None
    from wellFormedD(4) [OF assms(1,2)] show ?thesis
      by (simp add: showMesh_create [OF None])
  next
    case (Some mx)
    from wellFormed_inj [OF assms(1,2), of x] assms(3) Some have "mx \<noteq> m" by auto
    then show ?thesis by (simp add: showMesh_update_objects [OF Some])
  qed
qed

lemma kept_showMesh_same:
  assumes "map_of (xrMeshToThreeMesh s) h = Some m" and "objects s m = Some obj"
    and "refreshed env frame h obj = obj"
  shows "map_of (xrMeshToThreeMesh (showMesh env frame h s)) h = Some m"
    and "objects (showMesh env frame h s) m = Some obj"
  using assms by (simp_all add: showMesh_update(1) [OF assms(1)] showMesh_update_objects [OF assms(1)])

lemma kept_processMeshes:
  "wellFormed s \<Longrightarrow> map_of (xrMeshToThreeMesh s) h = Some m \<Longrightarrow> objects s m = Some obj \<Longrightarrow>
   h \<notin> set xs \<or> (shouldShowMeshInView env h cp cf frame rs \<and> refreshed env frame h obj = obj) \<Longrightarrow>
   map_of (xrMeshToThreeMesh (processMeshes env frame rs cp cf n xs s)) h = Some m \<and>
   objects (processMeshes env frame rs cp cf n xs s) m = Some obj"
proof (induction xs arbitrary: n s)
  case Nil
  then show ?case by simp
next
  case (Cons x xs)
  from Cons.prems(4)
  have rest: "h \<notin> set xs \<or> (shouldShowMeshInView env h cp cf frame rs \<and> refreshed env frame h obj = obj)"
    by auto
  show ?case
  proof (cases "MAX_MESHES_PER_FRAME \<le> n")
    case True
    with Cons.prems show ?thesis by simp
  next
    case False
    show ?thesis
    proof (cases "shouldShowMeshInView env x cp cf frame rs")
      case True
      have wf': "wellFormed (showMesh env frame x s)"
        using Cons.prems(1) by (rule wellFormed_showMesh)
      have "map_of (xrMeshToThreeMesh (showMesh env frame x s)) h = Some m
          \<and> objects (showMesh env frame x s) m = Some obj"
      proof (cases "x = h")
        case same: True
        with Cons.prems(4) have "refreshed env frame h obj = obj" by auto
        with kept_showMesh_same [OF Cons.prems(2,3), of env frame] same show ?thesis by simp
      next
        case other: False
        with kept_showMesh_other [OF Cons.prems(1,2), of x env frame] Cons.prems(3)
        show ?thesis by simp
      qed
      then have "map_of (xrMeshToThreeMesh (showMesh env frame x s)) h = Some m"
        and "objects (showMesh env frame x s) m = Some obj" by simp_all
      from Cons.IH [OF wf' this rest] False True show ?thesis by simp
    next
      case vis: False
      with Cons.prems(4) have ne: "x \<noteq> h" by auto
      have wf': "wellFormed (hideMesh x s)"
        using Cons.prems(1) by (rule wellFormed_hideMesh)
      have "map_of (xrMeshToThreeMesh (hideMesh x s)) h = Some m"
        and "objects (hideMesh x s) m = Some obj"
        using kept_hideMesh [OF Cons.prems(1,2) ne] Cons.prems(3) by simp_all
      from Cons.IH [OF wf' this rest] False vis show ?thesis by simp
    qed
  qed
qed

subsection \<open>The meshes that a call creates\<close>

lemma created_hideMesh:
  assumes wf: "wellFormed s"
    and P: "\<And>h m. map_of (xrMeshToThreeMesh s) h = Some m \<Longrightarrow> N \<le> m \<Longrightarrow>
               objects s m = Some (createdMesh env frame h s)"
    and a: "map_of (xrMeshToThreeMesh (hideMesh x s)) h = Some m" and b: "N \<le> m"
  shows "objects (hideMesh x s) m = Some (createdMesh env frame h (hideMesh x s))"
proof -
  from a have ne: "x \<noteq> h" and old: "map_of (xrMeshToThreeMesh s) h = Some m"
    by (auto simp: hideMesh_forward split: if_splits)
  from kept_hideMesh(2) [OF wf old ne] P [OF old b] show ?thesis by simp
qed

lemma created_showMesh:
  assumes wf: "wellFormed s"
    and P: "\<And>h m. map_of (xrMeshToThreeMesh s) h = Some m \<Longrightarrow> N \<le> m \<Longrightarrow>
               objects s m = Some (createdMesh env frame h s)"
    and a: "map_of (xrMeshToThreeMesh (showMesh env frame x s)) h = Some m" and b: "N \<le> m"
  shows "objects (showMesh env frame x s) m = Some (createdMesh env frame h (showMesh env frame x s))"
proof (cases "x = h")
  case True
  show ?thesis
  proof (cases "map_of (xrMeshToThreeMesh s) h")
    case None
    with a True show ?thesis
      by (simp add: showMesh_create [OF None] AList.update_conv')
  next
    case (Some m')
    with a True have "m' = m" by (simp add: showMesh_update [OF Some])
    with kept_showMesh_same(2) [OF Some P [OF Some], of env frame] b True show ?thesis by simp
  qed
next
  case False
  from a False have old: "map_of (xrMeshToThreeMesh s) h = Some m"
    by (simp add: showMesh_forward_other)
  from kept_showMesh_other(2) [OF wf old, of x env frame] False P [OF old b] show ?thesis by simp
qed

lemma created_processMeshes:
  "wellFormed s \<Longrightarrow>
   (\<forall>h m. map_of (xrMeshToThreeMesh s) h = Some m \<longrightarrow> N \<le> m \<longrightarrow>
      objects s m = Some (createdMesh env frame h s)) \<Longrightarrow>
   map_of (xrMeshToThreeMesh (processMeshes env frame rs cp cf n xs s)) h = Some m \<Longrightarrow> N \<le> m \<Longrightarrow>
   objects (processMeshes env frame rs cp cf n xs s) m = Some (createdMesh env frame h s)"
proof (induction xs arbitrary: n s)
  case Nil
  then show ?case by simp
next
  case (Cons x xs)
  show ?case
  proof (cases "MAX_MESHES_PER_FRAME \<le> n")
    case True
    with Cons.prems show ?thesis by simp
  next
    case False
    show ?thesis
    proof (cases "shouldShowMeshInView env x cp cf frame rs")
      case True
      have wf': "wellFormed (showMesh env frame x s)"
        using Cons.prems(1) by (rule wellFormed_showMesh)
      have P': "\<forall>h m. map_of (xrMeshToThreeMesh (showMesh env frame x s)) h = Some m \<longrightarrow> N \<le> m \<longrightarrow>
          objects (showMesh env frame x s) m = Some (createdMesh env frame h (showMesh env frame x s))"
        using created_showMesh [OF Cons.prems(1), of N env frame x] Cons.prems(2) by blast
      from Cons.prems(3) False True
      have "map_of (xrMeshToThreeMesh (processMeshes env frame rs cp cf (Suc n) xs (showMesh env frame x s))) h
              = Some m" by simp
      from Cons.IH [OF wf' P' this Cons.prems(4)] False True show ?thesis by simp
    next
      case vis: False
      have wf': "wellFormed (hideMesh x s)"
        using Cons.prems(1) by (rule wellFormed_hideMesh)
      have P': "\<forall>h m. map_of (xrMeshToThreeMesh (hideMesh x s)) h = Some m \<longrightarrow> N \<le> m \<longrightarrow>
          objects (hideMesh x s) m = Some (createdMesh env frame h (hideMesh x s))"
        using created_hideMesh [OF Cons.prems(1), of N env frame x] Cons.prems(2) by blast
      from Cons.prems(3) False vis
      have "map_of (xrMeshToThreeMesh (processMeshes env frame rs cp cf n xs (hideMesh x s))) h = Some m"
        by simp
      from Cons.IH [OF wf' P' this Cons.prems(4)] False vis show ?thesis by simp
    qed
  qed
qed

section \<open>One whole call\<close>

lemma meshVisible_no_pose:
  "getPose frame (meshSpace (xrMeshObject env h)) rs = None \<Longrightarrow> meshVisible env frame rs h"
  by (simp add: meshVisible_def shouldShowMeshInView_def)

text \<open>The detector between the two loops.\<close>

lemma after_first_loop:
  fixes meshes :: "xrmesh list" and t :: real
  assumes wf: "wellFormed s"
  defines "s2 \<equiv> deleteOldMeshes meshes (xrMeshToThreeMesh s) (s\<lparr>lastMeshUpdateTime := t\<rparr>)"
  shows "wellFormed s2"
    and "nextRef s2 = nextRef s"
    and "h \<in> set meshes \<Longrightarrow> map_of (xrMeshToThreeMesh s2) h = map_of (xrMeshToThreeMesh s) h"
    and "h \<in> set meshes \<Longrightarrow> map_of (xrMeshToThreeMesh s) h = Some m \<Longrightarrow> objects s2 m = objects s m"
    and "h \<notin> set meshes \<Longrightarrow> map_of (xrMeshToThreeMesh s) h = Some m \<Longrightarrow> meshRemoved h m s2"
proof -
  let ?s1 = "s\<lparr>lastMeshUpdateTime := t\<rparr>"
  note D = wellFormedD [OF wf]
  have wf1: "wellFormed ?s1" using wf by (rule wellFormed_lastMeshUpdateTime)
  have s2: "s2 = deleteOldMeshes meshes (xrMeshToThreeMesh ?s1) ?s1" by (simp add: s2_def)
  show "wellFormed s2" unfolding s2 using wf1 by (rule wellFormed_deleteOldMeshes)
  show "nextRef s2 = nextRef s" by (simp add: s2_def frame_simps)
  show "map_of (xrMeshToThreeMesh s2) h = map_of (xrMeshToThreeMesh s) h" if "h \<in> set meshes"
    using that by (simp add: s2_def deleteOldMeshes_forward)
  have entry: "(h', m') \<in> set (xrMeshToThreeMesh s) \<longleftrightarrow> map_of (xrMeshToThreeMesh s) h' = Some m'"
    for h' m'
    using D(1) by simp
  show "objects s2 m = objects s m"
    if "h \<in> set meshes" and hm: "map_of (xrMeshToThreeMesh s) h = Some m"
  proof -
    have "\<not> (\<exists>h'. (h', m) \<in> set (xrMeshToThreeMesh s) \<and> h' \<notin> set meshes)"
      using wellFormed_inj [OF wf hm] that(1) by (auto simp: entry)
    then show ?thesis by (auto simp: s2_def deleteOldMeshes_objects)
  qed
  show "meshRemoved h m s2"
    if nin: "h \<notin> set meshes" and hm: "map_of (xrMeshToThreeMesh s) h = Some m"
  proof -
    have gone: "\<exists>h'. (h', m) \<in> set (xrMeshToThreeMesh s) \<and> h' \<notin> set meshes"
      using nin hm by (auto simp: entry)
    have "h \<in> fst ` set (xrMeshToThreeMesh s)"
      using hm by (metis entry fst_conv image_eqI)
    then have 1: "map_of (xrMeshToThreeMesh s2) h = None"
      using nin by (simp add: s2_def deleteOldMeshes_forward)
    have 2: "map_of (threeMeshToXrMesh s2) m = None"
      using gone by (simp add: s2_def deleteOldMeshes_reverse)
    from D(5) [OF hm] obtain obj where "objects s m = Some obj"
      by (auto simp: objectLive_def split: option.splits)
    then have 3: "case objects s2 m of None \<Rightarrow> False | Some obj \<Rightarrow> mesh_disposed obj"
      using gone by (simp add: s2_def deleteOldMeshes_objects)
    have "distinct (children ?s1)" using D(7) by simp
    from deleteOldMeshes_children [OF this, of meshes "xrMeshToThreeMesh s"] gone
    have 4: "m \<notin> set (children s2)" by (simp add: s2_def)
    from 1 2 3 4 show ?thesis by (simp add: meshRemoved_def)
  qed
qed

text \<open>A mesh that leaves the feed.\<close>

lemma updateMeshes_gone:
  assumes wf: "wellFormed s"
    and el: "detectedMeshes frame = Some meshes"
      "\<not> performance_now env - lastMeshUpdateTime s < MESH_UPDATE_INTERVAL_MS"
      "getReferenceSpace env = Some rs"
    and hm: "map_of (xrMeshToThreeMesh s) h = Some m" and nin: "h \<notin> set meshes"
  shows "meshRemoved h m (updateMeshes ts env (Some frame) s)"
proof -
  note A = after_first_loop [OF wf, where meshes = meshes and t = "performance_now env"]
  have "m < nextRef s" using wellFormedD(4) [OF wf hm] .
  then show ?thesis
    unfolding updateMeshes_eligible [OF el]
    by (intro meshRemoved_processMeshes) (simp_all add: nin A(2) A(5) [OF nin hm])
qed

text \<open>The second loop comes to a mesh of the feed unless the counter is full before.\<close>

lemma takeWhile_first: "h \<notin> set pre \<Longrightarrow> takeWhile (\<lambda>x. x \<noteq> h) (pre @ h # post) = pre"
  by (induction pre) auto

lemma processMeshes_reach:
  assumes "h \<in> set xs"
    and "length (filter (\<lambda>x. shouldShowMeshInView env x cp cf frame rs) (takeWhile (\<lambda>x. x \<noteq> h) xs))
           < MAX_MESHES_PER_FRAME"
  obtains pre post k where "xs = pre @ h # post" and "h \<notin> set pre"
    and "processMeshes env frame rs cp cf 0 xs s =
           (if shouldShowMeshInView env h cp cf frame rs
            then processMeshes env frame rs cp cf (Suc k) post
                   (showMesh env frame h (processMeshes env frame rs cp cf 0 pre s))
            else processMeshes env frame rs cp cf k post
                   (hideMesh h (processMeshes env frame rs cp cf 0 pre s)))"
proof -
  from split_list_first [OF assms(1)] obtain pre post where
    xs: "xs = pre @ h # post" and pre: "h \<notin> set pre" by blast
  let ?k = "length (filter (\<lambda>x. shouldShowMeshInView env x cp cf frame rs) pre)"
  from assms(2) have k: "\<not> MAX_MESHES_PER_FRAME \<le> ?k"
    by (simp add: xs takeWhile_first [OF pre])
  have "processMeshes env frame rs cp cf 0 xs s =
           (if shouldShowMeshInView env h cp cf frame rs
            then processMeshes env frame rs cp cf (Suc ?k) post
                   (showMesh env frame h (processMeshes env frame rs cp cf 0 pre s))
            else processMeshes env frame rs cp cf ?k post
                   (hideMesh h (processMeshes env frame rs cp cf 0 pre s)))"
    unfolding xs processMeshes_append using k by simp
  with xs pre show ?thesis by (rule that)
qed

text \<open>A mesh of the feed that fails the culling test.\<close>

lemma updateMeshes_culled:
  assumes wf: "wellFormed s"
    and el: "detectedMeshes frame = Some meshes"
      "\<not> performance_now env - lastMeshUpdateTime s < MESH_UPDATE_INTERVAL_MS"
      "getReferenceSpace env = Some rs"
    and hm: "map_of (xrMeshToThreeMesh s) h = Some m" and mem: "h \<in> set meshes"
    and vis: "\<not> meshVisible env frame rs h"
    and reach: "processedBefore env frame rs meshes h < MAX_MESHES_PER_FRAME"
  shows "meshRemoved h m (updateMeshes ts env (Some frame) s)"
proof -
  let ?cp = "fst (getCameraInfo frame rs)" and ?cf = "snd (getCameraInfo frame rs)"
  let ?s2 = "deleteOldMeshes meshes (xrMeshToThreeMesh s) (s\<lparr>lastMeshUpdateTime := performance_now env\<rparr>)"
  note A = after_first_loop [OF wf, where meshes = meshes and t = "performance_now env"]
  from vis have nv: "\<not> shouldShowMeshInView env h ?cp ?cf frame rs"
    by (simp add: meshVisible_def)
  from reach have r: "length (filter (\<lambda>x. shouldShowMeshInView env x ?cp ?cf frame rs)
        (takeWhile (\<lambda>x. x \<noteq> h) meshes)) < MAX_MESHES_PER_FRAME"
    by (simp add: processedBefore_def meshVisible_def [abs_def])
  from processMeshes_reach [OF mem r, of ?s2] obtain pre post k where
    xs: "meshes = pre @ h # post" and pre: "h \<notin> set pre"
    and eq: "processMeshes env frame rs ?cp ?cf 0 meshes ?s2 =
         processMeshes env frame rs ?cp ?cf k post
           (hideMesh h (processMeshes env frame rs ?cp ?cf 0 pre ?s2))"
    using nv by (metis (no_types, lifting))
  let ?sa = "processMeshes env frame rs ?cp ?cf 0 pre ?s2"
  have hm2: "map_of (xrMeshToThreeMesh ?s2) h = Some m"
    using A(3) [OF mem] hm by simp
  have wfa: "wellFormed ?sa" using A(1) by (rule wellFormed_processMeshes)
  have hma: "map_of (xrMeshToThreeMesh ?sa) h = Some m"
    using hm2 by (simp add: processMeshes_untouched [OF pre])
  note Da = wellFormedD [OF wfa]
  from Da(5) [OF hma] obtain obj where obj: "objects ?sa m = Some obj"
    by (auto simp: objectLive_def split: option.splits)
  have "meshRemoved h m (hideMesh h ?sa)"
    using hma obj Da(7)
    by (simp add: meshRemoved_def hideMesh_forward hideMesh_reverse hideMesh_objects hideMesh_children)
  moreover have "m < nextRef (hideMesh h ?sa)"
    using Da(4) [OF hma] by (simp add: frame_simps)
  ultimately have "meshRemoved h m (processMeshes env frame rs ?cp ?cf k post (hideMesh h ?sa))"
    using nv by (intro meshRemoved_processMeshes) simp_all
  then show ?thesis
    unfolding updateMeshes_eligible [OF el] eq .
qed

text \<open>A mesh of the feed that passes the culling test and has an object already.\<close>

lemma updateMeshes_refreshed:
  assumes wf: "wellFormed s"
    and el: "detectedMeshes frame = Some meshes"
      "\<not> performance_now env - lastMeshUpdateTime s < MESH_UPDATE_INTERVAL_MS"
      "getReferenceSpace env = Some rs"
    and hm: "map_of (xrMeshToThreeMesh s) h = Some m" and obj: "objects s m = Some obj"
    and mem: "h \<in> set meshes"
    and vis: "meshVisible env frame rs h"
    and reach: "processedBefore env frame rs meshes h < MAX_MESHES_PER_FRAME"
  shows "map_of (xrMeshToThreeMesh (updateMeshes ts env (Some frame) s)) h = Some m"
    and "objects (updateMeshes ts env (Some frame) s) m = Some (refreshed env frame h obj)"
proof -
  let ?cp = "fst (getCameraInfo frame rs)" and ?cf = "snd (getCameraInfo frame rs)"
  let ?s2 = "deleteOldMeshes meshes (xrMeshToThreeMesh s) (s\<lparr>lastMeshUpdateTime := performance_now env\<rparr>)"
  note A = after_first_loop [OF wf, where meshes = meshes and t = "performance_now env"]
  from vis have v: "shouldShowMeshInView env h ?cp ?cf frame rs"
    by (simp add: meshVisible_def)
  from reach have r: "length (filter (\<lambda>x. shouldShowMeshInView env x ?cp ?cf frame rs)
        (takeWhile (\<lambda>x. x \<noteq> h) meshes)) < MAX_MESHES_PER_FRAME"
    by (simp add: processedBefore_def meshVisible_def [abs_def])
  from processMeshes_reach [OF mem r, of ?s2] obtain pre post k where
    xs: "meshes = pre @ h # post" and pre: "h \<notin> set pre"
    and eq: "processMeshes env frame rs ?cp ?cf 0 meshes ?s2 =
         processMeshes env frame rs ?cp ?cf (Suc k) post
           (showMesh env frame h (processMeshes env frame rs ?cp ?cf 0 pre ?s2))"
    using v by (metis (no_types, lifting))
  let ?sa = "processMeshes env frame rs ?cp ?cf 0 pre ?s2"
  have hm2: "map_of (xrMeshToThreeMesh ?s2) h = Some m"
    using A(3) [OF mem] hm by simp
  have obj2: "objects ?s2 m = Some obj"
    using A(4) [OF mem hm] obj by simp
  have wfa: "wellFormed ?sa" using A(1) by (rule wellFormed_processMeshes)
  from kept_processMeshes [OF A(1) hm2 obj2, of pre env ?cp ?cf frame rs 0] pre
  have hma: "map_of (xrMeshToThreeMesh ?sa) h = Some m" and obja: "objects ?sa m = Some obj"
    by simp_all
  let ?sb = "showMesh env frame h ?sa"
  have wfb: "wellFormed ?sb" using wfa by (rule wellFormed_showMesh)
  have hmb: "map_of (xrMeshToThreeMesh ?sb) h = Some m"
    using hma by (simp add: showMesh_update(1) [OF hma])
  have objb: "objects ?sb m = Some (refreshed env frame h obj)"
    using obja by (simp add: showMesh_update_objects [OF hma])
  from kept_processMeshes [OF wfb hmb objb, of post env ?cp ?cf frame rs "Suc k"] v
  have "map_of (xrMeshToThreeMesh (processMeshes env frame rs ?cp ?cf (Suc k) post ?sb)) h = Some m"
    and "objects (processMeshes env frame rs ?cp ?cf (Suc k) post ?sb) m = Some (refreshed env frame h obj)"
    by simp_all
  then show "map_of (xrMeshToThreeMesh (updateMeshes ts env (Some frame) s)) h = Some m"
    and "objects (updateMeshes ts env (Some frame) s) m = Some (refreshed env frame h obj)"
    unfolding updateMeshes_eligible [OF el] eq by simp_all
qed

text \<open>A mesh of the feed that passes the culling test and has no object yet.\<close>

lemma updateMeshes_created:
  assumes wf: "wellFormed s"
    and el: "detectedMeshes frame = Some meshes"
      "\<not> performance_now env - lastMeshUpdateTime s < MESH_UPDATE_INTERVAL_MS"
      "getReferenceSpace env = Some rs"
    and hm: "map_of (xrMeshToThreeMesh s) h = None"
    and mem: "h \<in> set meshes"
    and vis: "meshVisible env frame rs h"
    and reach: "processedBefore env frame rs meshes h < MAX_MESHES_PER_FRAME"
  shows "\<exists>m. nextRef s \<le> m \<and>
           map_of (xrMeshToThreeMesh (updateMeshes ts env (Some frame) s)) h = Some m \<and>
           objects (updateMeshes ts env (Some frame) s) m = Some (createdMesh env frame h s)"
proof -
  let ?cp = "fst (getCameraInfo frame rs)" and ?cf = "snd (getCameraInfo frame rs)"
  let ?s2 = "deleteOldMeshes meshes (xrMeshToThreeMesh s) (s\<lparr>lastMeshUpdateTime := performance_now env\<rparr>)"
  note A = after_first_loop [OF wf, where meshes = meshes and t = "performance_now env"]
  from vis have v: "shouldShowMeshInView env h ?cp ?cf frame rs"
    by (simp add: meshVisible_def)
  from reach have r: "length (filter (\<lambda>x. shouldShowMeshInView env x ?cp ?cf frame rs)
        (takeWhile (\<lambda>x. x \<noteq> h) meshes)) < MAX_MESHES_PER_FRAME"
    by (simp add: processedBefore_def meshVisible_def [abs_def])
  from processMeshes_reach [OF mem r, of ?s2] obtain pre post k where
    xs: "meshes = pre @ h # post" and pre: "h \<notin> set pre"
    and eq: "processMeshes env frame rs ?cp ?cf 0 meshes ?s2 =
         processMeshes env frame rs ?cp ?cf (Suc k) post
           (showMesh env frame h (processMeshes env frame rs ?cp ?cf 0 pre ?s2))"
    using v by (metis (no_types, lifting))
  let ?sa = "processMeshes env frame rs ?cp ?cf 0 pre ?s2"
  have hm2: "map_of (xrMeshToThreeMesh ?s2) h = None"
    using A(3) [OF mem] hm by simp
  have wfa: "wellFormed ?sa" using A(1) by (rule wellFormed_processMeshes)
  have hma: "map_of (xrMeshToThreeMesh ?sa) h = None"
    using hm2 by (simp add: processMeshes_untouched [OF pre])
  let ?m = "nextRef ?sa"
  let ?sb = "showMesh env frame h ?sa"
  have ge: "nextRef s \<le> ?m"
    using nextRef_processMeshes [of ?s2 env frame rs ?cp ?cf 0 pre] by (simp add: A(2))
  have wfb: "wellFormed ?sb" using wfa by (rule wellFormed_showMesh)
  have hmb: "map_of (xrMeshToThreeMesh ?sb) h = Some ?m"
    by (simp add: showMesh_create(1) [OF hma] AList.update_conv')
  have objb: "objects ?sb ?m = Some (createdMesh env frame h s)"
    by (simp add: showMesh_create(5) [OF hma])
  from kept_processMeshes [OF wfb hmb objb, of post env ?cp ?cf frame rs "Suc k"] v
  have "map_of (xrMeshToThreeMesh (processMeshes env frame rs ?cp ?cf (Suc k) post ?sb)) h = Some ?m"
    and "objects (processMeshes env frame rs ?cp ?cf (Suc k) post ?sb) ?m
           = Some (createdMesh env frame h s)"
    by simp_all
  with ge show ?thesis
    unfolding updateMeshes_eligible [OF el] eq by blast
qed

text \<open>Every object that a call makes: any call, eligible or not.\<close>

lemma updateMeshes_new_objects:
  assumes wf: "wellFormed s"
    and hm: "map_of (xrMeshToThreeMesh (updateMeshes ts env frameOpt s)) h = Some m"
    and new: "nextRef s \<le> m"
  shows "objects (updateMeshes ts env frameOpt s) m = Some (createdMesh env (the frameOpt) h s)"
proof -
  have old: "map_of (xrMeshToThreeMesh s) h' = Some m' \<Longrightarrow> \<not> nextRef s \<le> m'" for h' m'
    using wellFormedD(4) [OF wf, of h' m'] by simp
  have "xrMeshToThreeMesh (updateMeshes ts env frameOpt s) = xrMeshToThreeMesh s \<or>
     (\<exists>frame meshes rs. frameOpt = Some frame \<and> detectedMeshes frame = Some meshes \<and>
        \<not> performance_now env - lastMeshUpdateTime s < MESH_UPDATE_INTERVAL_MS \<and>
        getReferenceSpace env = Some rs)"
    by (cases frameOpt; cases "detectedMeshes (the frameOpt)"; cases "getReferenceSpace env")
       (simp_all add: updateMeshes_def Let_def)
  then consider (same) "xrMeshToThreeMesh (updateMeshes ts env frameOpt s) = xrMeshToThreeMesh s"
    | (run) frame meshes rs where "frameOpt = Some frame" "detectedMeshes frame = Some meshes"
      "\<not> performance_now env - lastMeshUpdateTime s < MESH_UPDATE_INTERVAL_MS"
      "getReferenceSpace env = Some rs"
    by blast
  then show ?thesis
  proof cases
    case same
    with hm new old show ?thesis by auto
  next
    case run
    let ?cp = "fst (getCameraInfo frame rs)" and ?cf = "snd (getCameraInfo frame rs)"
    let ?s2 = "deleteOldMeshes meshes (xrMeshToThreeMesh s) (s\<lparr>lastMeshUpdateTime := performance_now env\<rparr>)"
    note A = after_first_loop [OF wf, where meshes = meshes and t = "performance_now env"]
    have none: "\<forall>h m. map_of (xrMeshToThreeMesh ?s2) h = Some m \<longrightarrow> nextRef s \<le> m \<longrightarrow>
        objects ?s2 m = Some (createdMesh env frame h ?s2)"
    proof (intro allI impI)
      fix h' m'
      assume a: "map_of (xrMeshToThreeMesh ?s2) h' = Some m'" and b: "nextRef s \<le> m'"
      from wellFormedD(4) [OF A(1) a] have "m' < nextRef s" by (simp add: A(2))
      with b show "objects ?s2 m' = Some (createdMesh env frame h' ?s2)" by simp
    qed
    from hm have "map_of (xrMeshToThreeMesh (processMeshes env frame rs ?cp ?cf 0 meshes ?s2)) h = Some m"
      by (simp add: run(1) updateMeshes_eligible [OF run(2-4)])
    from created_processMeshes [OF A(1) none this new] show ?thesis
      by (simp add: run(1) updateMeshes_eligible [OF run(2-4)])
  qed
qed

section \<open>Concrete runs\<close>

lemma run_twoMeshes:
  "xrMeshToThreeMesh (run twoMeshes) = [(1, 0), (2, 1)]"
  "lastMeshUpdateTime (run twoMeshes) = 1000"
  by (simp_all add: run_def twoMeshes_def noPoses_def eval_defs)

lemma run_oneFarMesh:
  "xrMeshToThreeMesh (run oneFarMesh) = [(100000, 0)]"
  "lastMeshUpdateTime (run oneFarMesh) = 1000"
  by (simp_all add: run_def oneFarMesh_def noPoses_def eval_defs)

text \<open>A mesh that comes after a full counter is not looked at.\<close>

lemma updateMeshes_beyond_cap:
  assumes el: "detectedMeshes frame = Some (pre @ [h])"
      "\<not> performance_now env - lastMeshUpdateTime s < MESH_UPDATE_INTERVAL_MS"
      "getReferenceSpace env = Some rs"
    and pre: "h \<notin> set pre"
    and vis: "\<forall>x \<in> set pre. meshVisible env frame rs x"
    and full: "MAX_MESHES_PER_FRAME \<le> length pre"
  shows "map_of (xrMeshToThreeMesh (updateMeshes ts env (Some frame) s)) h
           = map_of (xrMeshToThreeMesh s) h"
proof -
  let ?cp = "fst (getCameraInfo frame rs)" and ?cf = "snd (getCameraInfo frame rs)"
  have "filter (\<lambda>x. shouldShowMeshInView env x ?cp ?cf frame rs) pre = pre"
    using vis by (simp add: meshVisible_def)
  then have "MAX_MESHES_PER_FRAME \<le> 0 + length (filter (\<lambda>x. shouldShowMeshInView env x ?cp ?cf frame rs) pre)"
    using full by simp
  then show ?thesis
    unfolding updateMeshes_eligible [OF el] processMeshes_append
    by (simp only: processMeshes_full)
       (simp add: processMeshes_untouched [OF pre] deleteOldMeshes_forward)
qed

lemma crowded:
  "100000 \<notin> set [0..<100000]" "MAX_MESHES_PER_FRAME \<le> length [0..<100000]"
  by (simp_all add: MAX_MESHES_PER_FRAME_def)

lemma crowded_visible_noPoses:
  "\<forall>x \<in> set [0..<100000]. meshVisible (sceneEnv t) (sceneFrame ms noPoses) 0 x"
  by (simp add: meshVisible_def shouldShowMeshInView_def sceneEnv_def sceneFrame_def noPoses_def)

lemma crowded_visible_farPoses:
  "\<forall>x \<in> set [0..<100000]. meshVisible (sceneEnv t) (sceneFrame ms farPoses) 0 x"
  by (simp add: meshVisible_def shouldShowMeshInView_def sceneEnv_def sceneFrame_def farPoses_def)

lemma meshMappedI:
  "wellFormed s \<Longrightarrow> map_of (xrMeshToThreeMesh s) h = Some m \<Longrightarrow> meshMapped h m s"
  using wellFormedD(3,5,9) [of s h m] by (simp add: meshMapped_def)

lemma beyond_distance_not_visible:
  assumes "getPose frame (meshSpace (xrMeshObject env h)) rs = Some pose"
    and "straightLineDistance (posePosition pose) (fst (getCameraInfo frame rs)) > kMaxViewDistance"
  shows "\<not> meshVisible env frame rs h"
  using shouldShowMeshInView_iff [OF assms(1)] assms(2)
  by (simp add: meshVisible_def kMaxViewDistance_def)

lemma sceneCamera: "getCameraInfo (sceneFrame ms ps) rs = (Vector3 0 0 0, Vector3 0 0 (- 1))"
  by (simp add: eval_defs)

lemma run_snoc: "run (calls @ [c]) = call_step (run calls) c"
  by (simp add: run_def)

lemma run_culledRun:
  "xrMeshToThreeMesh (run culledRun) = [(2, 1)]"
  "lastMeshUpdateTime (run culledRun) = 2000"
  "nextRef (run culledRun) = 2"
  by (simp_all add: run_def culledRun_def twoMeshes_def noPoses_def eval_defs)

lemma run_placedRun:
  "xrMeshToThreeMesh (run placedRun) = [(1, 0)]"
  "lastMeshUpdateTime (run placedRun) = 1000"
  "objects (run placedRun) 0 =
     Some \<lparr>mesh_material = defaultMaterial, mesh_geometry = ([1], [0]),
           mesh_position = Vector3 0 0 (- 1), mesh_quaternion = DOMPoint 0 0 0 1,
           mesh_disposed = False, mesh_rapier = []\<rparr>"
  by (simp_all add: run_def placedRun_def eval_defs)

section \<open>Materials and physics\<close>

lemma list_all_update:
  "list_all P al \<Longrightarrow> P (k, v) \<Longrightarrow> list_all P (AList.update k v al)"
  by (induction al) auto

lemma materialsKnown_init: "materialsKnown s \<Longrightarrow> materialsKnown (init options s)"
  by (simp add: materialsKnown_def init_def SEMANTIC_LABELS_def SEMANTIC_COLORS_def
      MeshBasicMaterial_def list_all_update)

lemma foldl_initRapierPhysics_fields:
  "debugMaterials (foldl (\<lambda>t (_, mesh). initRapierPhysics mesh p t) s es) = debugMaterials s"
  "fallbackDebugMaterial (foldl (\<lambda>t (_, mesh). initRapierPhysics mesh p t) s es) = fallbackDebugMaterial s"
  "xrMeshToThreeMesh (foldl (\<lambda>t (_, mesh). initRapierPhysics mesh p t) s es) = xrMeshToThreeMesh s"
  "threeMeshToXrMesh (foldl (\<lambda>t (_, mesh). initRapierPhysics mesh p t) s es) = threeMeshToXrMesh s"
  "children (foldl (\<lambda>t (_, mesh). initRapierPhysics mesh p t) s es) = children s"
  "physics_of (foldl (\<lambda>t (_, mesh). initRapierPhysics mesh p t) s es) = physics_of s"
  by (induction es arbitrary: s; simp add: initRapierPhysics_def frame_simps split: prod.splits)+

lemma initPhysics_fields:
  "debugMaterials (initPhysics p s) = debugMaterials s"
  "fallbackDebugMaterial (initPhysics p s) = fallbackDebugMaterial s"
  "xrMeshToThreeMesh (initPhysics p s) = xrMeshToThreeMesh s"
  "threeMeshToXrMesh (initPhysics p s) = threeMeshToXrMesh s"
  "children (initPhysics p s) = children s"
  "physics_of (initPhysics p s) = Some p"
  by (simp_all add: initPhysics_def foldl_initRapierPhysics_fields)

lemma updateMeshes_materials:
  "debugMaterials (updateMeshes ts env frameOpt s) = debugMaterials s"
  "fallbackDebugMaterial (updateMeshes ts env frameOpt s) = fallbackDebugMaterial s"
  "physics_of (updateMeshes ts env frameOpt s) = physics_of s"
  by (simp_all add: updateMeshes_def Let_def frame_simps split: option.splits prod.splits)

lemma materialsKnown_call_step: "materialsKnown s \<Longrightarrow> materialsKnown (call_step s c)"
  by (cases c) (simp_all add: materialsKnown_init, simp_all add: materialsKnown_def
      initPhysics_fields updateMeshes_materials)

lemma materialsKnown_foldl: "materialsKnown s \<Longrightarrow> materialsKnown (foldl call_step s calls)"
  by (induction calls arbitrary: s) (simp_all add: materialsKnown_call_step)

lemma materialsKnown_run: "materialsKnown (run calls)"
  unfolding run_def
  by (rule materialsKnown_foldl) (simp add: materialsKnown_def newMeshDetector_def)

lemma materialsKnown_entry:
  assumes "materialsKnown s" and "map_of (debugMaterials s) l = Some mat"
  shows "l \<in> set SEMANTIC_LABELS" and "wireframe mat" and "color mat \<in> set SEMANTIC_COLORS"
  using assms map_of_SomeD [OF assms(2)]
  by (auto simp: materialsKnown_def list_all_iff)

lemma chooseMaterial_firstDefined:
  assumes "materialsKnown s"
  shows "chooseMaterial s label = firstDefinedMaterial s label"
proof -
  have "map_of (debugMaterials s) [] = None"
  proof (cases "map_of (debugMaterials s) []")
    case (Some mat)
    from materialsKnown_entry(1) [OF assms Some] show ?thesis
      by (simp add: SEMANTIC_LABELS_def)
  qed simp
  then show ?thesis
    by (simp add: chooseMaterial_def firstDefinedMaterial_def labelMaterial_def split: option.splits)
qed

lemma unknown_label_material:
  assumes mk: "materialsKnown s"
    and unknown: "\<forall>l. label = Some l \<longrightarrow> l \<notin> set SEMANTIC_LABELS"
  shows "labelMaterial s label = None"
    and "firstDefinedMaterial s label
           = (case fallbackDebugMaterial s of Some f \<Rightarrow> f | None \<Rightarrow> defaultMaterial)"
    and "firstDefinedMaterial s label \<notin> snd ` set (debugMaterials s)"
proof -
  show none: "labelMaterial s label = None"
  proof (cases label)
    case (Some l)
    with unknown have "l \<notin> set SEMANTIC_LABELS" by simp
    with materialsKnown_entry(1) [OF mk, of l] have "map_of (debugMaterials s) l = None"
      by (cases "map_of (debugMaterials s) l") auto
    with Some show ?thesis by (simp add: labelMaterial_def)
  qed (simp add: labelMaterial_def)
  then show eq: "firstDefinedMaterial s label
           = (case fallbackDebugMaterial s of Some f \<Rightarrow> f | None \<Rightarrow> defaultMaterial)"
    by (simp add: firstDefinedMaterial_def)
  have other: "\<not> (wireframe mat \<and> color mat \<in> set SEMANTIC_COLORS)"
    if "mat = (case fallbackDebugMaterial s of Some f \<Rightarrow> f | None \<Rightarrow> defaultMaterial)" for mat
    using that mk
    by (auto simp: materialsKnown_def defaultMaterial_def MeshBasicMaterial_def SEMANTIC_COLORS_def
        split: option.splits)
  show "firstDefinedMaterial s label \<notin> snd ` set (debugMaterials s)"
  proof
    assume "firstDefinedMaterial s label \<in> snd ` set (debugMaterials s)"
    then obtain l where "(l, firstDefinedMaterial s label) \<in> set (debugMaterials s)" by auto
    with mk have "wireframe (firstDefinedMaterial s label)
        \<and> color (firstDefinedMaterial s label) \<in> set SEMANTIC_COLORS"
      by (auto simp: materialsKnown_def list_all_iff)
    with other [OF eq] show False by simp
  qed
qed

lemma initRapierPhysics_objects:
  "objects (initRapierPhysics m p s) r =
     (if r = m then map_option (\<lambda>obj. obj\<lparr>mesh_rapier := mesh_rapier obj @ [p]\<rparr>) (objects s r)
      else objects s r)"
  by (simp add: initRapierPhysics_def frame_simps)

lemma foldl_initRapierPhysics_objects:
  "objects (foldl (\<lambda>t (_, mesh). initRapierPhysics mesh p t) s es) r =
     map_option (\<lambda>obj. obj\<lparr>mesh_rapier := mesh_rapier obj @ replicate (count_list (map snd es) r) p\<rparr>)
       (objects s r)"
proof (induction es arbitrary: s)
  case Nil
  show ?case by (cases "objects s r") simp_all
next
  case (Cons e es)
  obtain h m where e: "e = (h, m)" by (cases e)
  show ?case
    by (cases "objects s r")
       (auto simp: e Cons.IH initRapierPhysics_objects)
qed

lemma count_list_distinct: "distinct xs \<Longrightarrow> x \<in> set xs \<Longrightarrow> count_list xs x = 1"
  by (induction xs) (auto simp: count_list_0_iff)

lemma wellFormed_distinct_objects:
  assumes "wellFormed s"
  shows "distinct (map snd (xrMeshToThreeMesh s))"
proof -
  note D = wellFormedD [OF assms]
  have "inj_on snd (set (xrMeshToThreeMesh s))"
  proof (rule inj_onI)
    fix a b assume a: "a \<in> set (xrMeshToThreeMesh s)" and b: "b \<in> set (xrMeshToThreeMesh s)"
      and eq: "snd a = snd b"
    from a D(1) have "map_of (xrMeshToThreeMesh s) (fst a) = Some (snd a)" by simp
    moreover from b D(1) eq have "map_of (xrMeshToThreeMesh s) (fst b) = Some (snd a)" by simp
    ultimately have "fst b = fst a" by (rule wellFormed_inj [OF assms])
    with eq show "a = b" by (simp add: prod_eq_iff)
  qed
  moreover from D(1) have "distinct (xrMeshToThreeMesh s)" by (rule distinct_map [THEN iffD1, THEN conjunct1])
  ultimately show ?thesis by (simp add: distinct_map)
qed

lemma initPhysics_objects:
  assumes wf: "wellFormed s" and hm: "map_of (xrMeshToThreeMesh s) h = Some m"
  shows "objects (initPhysics p s) m
           = map_option (\<lambda>obj. obj\<lparr>mesh_rapier := mesh_rapier obj @ [p]\<rparr>) (objects s m)"
proof -
  have "m \<in> set (map snd (xrMeshToThreeMesh s))"
    using map_of_SomeD [OF hm] by force
  with wellFormed_distinct_objects [OF wf] have "count_list (map snd (xrMeshToThreeMesh s)) m = 1"
    by (rule count_list_distinct)
  then show ?thesis
    by (simp add: initPhysics_def foldl_initRapierPhysics_objects)
qed


lemma run_debugRun:
  "xrMeshToThreeMesh (run debugRun) = []"
  "nextRef (run debugRun) = 0"
  "lastMeshUpdateTime (run debugRun) = 0"
  "fallbackDebugMaterial (run debugRun)
     = Some \<lparr>color = 0, wireframe = True, material_side = DoubleSide, visible = True\<rparr>"
  "debugMaterials (run debugRun) =
     [(''floor'', \<lparr>color = 65280, wireframe = True, material_side = DoubleSide, visible = True\<rparr>),
      (''ceiling'', \<lparr>color = 16776960, wireframe = True, material_side = DoubleSide, visible = True\<rparr>),
      (''wall'', \<lparr>color = 255, wireframe = True, material_side = DoubleSide, visible = True\<rparr>)]"
  by (simp_all add: run_def debugRun_def init_def newMeshDetector_def SEMANTIC_LABELS_def
      SEMANTIC_COLORS_def MeshBasicMaterial_def)

lemma run_physicsRun:
  "xrMeshToThreeMesh (run physicsRun) = [(1, 0), (2, 1)]"
  "lastMeshUpdateTime (run physicsRun) = 1000"
  "nextRef (run physicsRun) = 2"
  "physics_of (run physicsRun) = Some scenePhysics"
  by (simp_all add: run_def physicsRun_def twoMeshes_def noPoses_def initPhysics_def eval_defs)

section \<open>The claims\<close>

text \<open>
  Claim C1 (bijection invariant). After any sequence of calls of \<open>init\<close>,
  \<open>initPhysics\<close> and \<open>updateMeshes\<close> on a newly constructed detector, the two maps
  are inverse to each other: each has one entry per key, every entry of the forward map
  has its mirror entry in the reverse map and conversely, so a lookup of \<open>h\<close> in the
  forward map yields \<open>m\<close> exactly when the lookup of \<open>m\<close> in the reverse map yields \<open>h\<close>.
\<close>

theorem mapping_bijection:
  "mappingsConsistent (run calls) \<and>
   distinct (map fst (xrMeshToThreeMesh (run calls))) \<and>
   distinct (map fst (threeMeshToXrMesh (run calls))) \<and>
   (\<forall>h m. map_of (xrMeshToThreeMesh (run calls)) h = Some m
          \<longleftrightarrow> map_of (threeMeshToXrMesh (run calls)) m = Some h)"
proof -
  have wf: "wellFormed (run calls)" by (rule wellFormed_run)
  note D = wellFormedD [OF wf]
  have "mappingsConsistent (run calls)"
    using wf unfolding wellFormed_def mappingsConsistent_def list_all_iff by fast
  moreover have "map_of (xrMeshToThreeMesh (run calls)) h = Some m
          \<longleftrightarrow> map_of (threeMeshToXrMesh (run calls)) m = Some h" for h m
    using D(3) [of h m] D(6) [of m h] by blast
  ultimately show ?thesis using D(1,2) by blast
qed

theorem mapping_bijection_witness:
  "mappingsConsistent
     (run [UpdateMeshes 0 (sceneEnv 1000) (Some (sceneFrame [1, 2] (\<lambda>sp. None))),
           UpdateMeshes 0 (sceneEnv 2000) (Some (sceneFrame [2, 3] (\<lambda>sp. None)))]) \<and>
   xrMeshToThreeMesh
     (run [UpdateMeshes 0 (sceneEnv 1000) (Some (sceneFrame [1, 2] (\<lambda>sp. None))),
           UpdateMeshes 0 (sceneEnv 2000) (Some (sceneFrame [2, 3] (\<lambda>sp. None)))])
     = [(2, 1), (3, 2)] \<and>
   threeMeshToXrMesh
     (run [UpdateMeshes 0 (sceneEnv 1000) (Some (sceneFrame [1, 2] (\<lambda>sp. None))),
           UpdateMeshes 0 (sceneEnv 2000) (Some (sceneFrame [2, 3] (\<lambda>sp. None)))])
     = [(1, 2), (2, 3)]"
  using mapping_bijection
    [of "[UpdateMeshes 0 (sceneEnv 1000) (Some (sceneFrame [1, 2] (\<lambda>sp. None))),
          UpdateMeshes 0 (sceneEnv 2000) (Some (sceneFrame [2, 3] (\<lambda>sp. None)))]"]
  by (simp add: run_def eval_defs)

text \<open>
  Claim C2 (throttle gate). A call of \<open>updateMeshes\<close> at a time less than
  \<open>MESH_UPDATE_INTERVAL_MS\<close> after the stored \<open>lastMeshUpdateTime\<close> returns the detector
  as it was: maps, children, objects and time stamp. In particular, after a call that
  passed the gate, a second call within the interval changes nothing.
\<close>

theorem throttle_gate:
  "(performance_now env - lastMeshUpdateTime s < MESH_UPDATE_INTERVAL_MS \<longrightarrow>
      updateMeshes ts env frameOpt s = s) \<and>
   (detectedMeshes frame = Some meshes \<and>
    \<not> performance_now env - lastMeshUpdateTime s < MESH_UPDATE_INTERVAL_MS \<and>
    performance_now env' - performance_now env < MESH_UPDATE_INTERVAL_MS \<longrightarrow>
      updateMeshes ts' env' frameOpt' (updateMeshes ts env (Some frame) s)
        = updateMeshes ts env (Some frame) s)"
proof (intro conjI impI)
  assume "performance_now env - lastMeshUpdateTime s < MESH_UPDATE_INTERVAL_MS"
  then show "updateMeshes ts env frameOpt s = s"
    by (rule updateMeshes_throttled)
next
  assume a: "detectedMeshes frame = Some meshes \<and>
    \<not> performance_now env - lastMeshUpdateTime s < MESH_UPDATE_INTERVAL_MS \<and>
    performance_now env' - performance_now env < MESH_UPDATE_INTERVAL_MS"
  then have "lastMeshUpdateTime (updateMeshes ts env (Some frame) s) = performance_now env"
    by (intro updateMeshes_lastMeshUpdateTime [where frame = frame and meshes = meshes]) simp_all
  with a show "updateMeshes ts' env' frameOpt' (updateMeshes ts env (Some frame) s)
        = updateMeshes ts env (Some frame) s"
    by (intro updateMeshes_throttled) simp
qed

theorem throttle_gate_witness:
  "performance_now (sceneEnv 1500)
      - lastMeshUpdateTime (updateMeshes 0 (sceneEnv 1000) (Some (sceneFrame [1] (\<lambda>sp. None))) newMeshDetector)
      < MESH_UPDATE_INTERVAL_MS \<and>
   detectedMeshes (sceneFrame [1] (\<lambda>sp. None)) = Some [1] \<and>
   \<not> performance_now (sceneEnv 1000) - lastMeshUpdateTime newMeshDetector < MESH_UPDATE_INTERVAL_MS \<and>
   performance_now (sceneEnv 1500) - performance_now (sceneEnv 1000) < MESH_UPDATE_INTERVAL_MS \<and>
   xrMeshToThreeMesh (updateMeshes 0 (sceneEnv 1000) (Some (sceneFrame [1] (\<lambda>sp. None))) newMeshDetector)
      = [(1, 0)] \<and>
   updateMeshes 0 (sceneEnv 1500) (Some (sceneFrame [2] (\<lambda>sp. None)))
      (updateMeshes 0 (sceneEnv 1000) (Some (sceneFrame [1] (\<lambda>sp. None))) newMeshDetector)
      = updateMeshes 0 (sceneEnv 1000) (Some (sceneFrame [1] (\<lambda>sp. None))) newMeshDetector"
  using throttle_gate
    [of "sceneEnv 1000" newMeshDetector 0 "Some (sceneFrame [1] (\<lambda>sp. None))"
        "sceneFrame [1] (\<lambda>sp. None)" "[1]" "sceneEnv 1500" 0 "Some (sceneFrame [2] (\<lambda>sp. None))"]
  by (simp add: eval_defs)

text \<open>
  Claim C3 (disappearance cleanup). A handle that the forward map holds and that the feed
  no longer reports is taken out by the next call that passes the throttle gate with a
  reference space at hand: its entry in the forward map and the entry of its object in
  the reverse map are gone, the object has been disposed of, and it is no longer a child
  of the detector.
\<close>

theorem disappearance_cleanup:
  assumes "detectedMeshes frame = Some meshes"
    and "\<not> performance_now env - lastMeshUpdateTime (run calls) < MESH_UPDATE_INTERVAL_MS"
    and "getReferenceSpace env = Some rs"
    and "map_of (xrMeshToThreeMesh (run calls)) h = Some m"
    and "h \<notin> set meshes"
  shows "meshRemoved h m (updateMeshes ts env (Some frame) (run calls))"
  using wellFormed_run assms by (rule updateMeshes_gone)

theorem disappearance_cleanup_witness:
  "detectedMeshes (sceneFrame [2] noPoses) = Some [2] \<and>
   \<not> performance_now (sceneEnv 2000) - lastMeshUpdateTime (run twoMeshes) < MESH_UPDATE_INTERVAL_MS \<and>
   getReferenceSpace (sceneEnv 2000) = Some 0 \<and>
   map_of (xrMeshToThreeMesh (run twoMeshes)) 1 = Some 0 \<and>
   1 \<notin> set [2 :: nat] \<and>
   meshRemoved 1 0 (updateMeshes 0 (sceneEnv 2000) (Some (sceneFrame [2] noPoses)) (run twoMeshes)) \<and>
   xrMeshToThreeMesh (updateMeshes 0 (sceneEnv 2000) (Some (sceneFrame [2] noPoses)) (run twoMeshes))
     = [(2, 1)]"
proof -
  have h: "detectedMeshes (sceneFrame [2] noPoses) = Some [2]"
    "\<not> performance_now (sceneEnv 2000) - lastMeshUpdateTime (run twoMeshes) < MESH_UPDATE_INTERVAL_MS"
    "getReferenceSpace (sceneEnv 2000) = Some 0"
    "map_of (xrMeshToThreeMesh (run twoMeshes)) 1 = Some 0"
    "1 \<notin> set [2 :: nat]"
    by (simp_all add: run_twoMeshes sceneFrame_def sceneEnv_def MESH_UPDATE_INTERVAL_MS_def)
  have e: "xrMeshToThreeMesh (updateMeshes 0 (sceneEnv 2000) (Some (sceneFrame [2] noPoses)) (run twoMeshes))
     = [(2, 1)]"
    by (simp add: run_def twoMeshes_def noPoses_def eval_defs)
  from disappearance_cleanup [OF h, of 0] h e show ?thesis by simp
qed

text \<open>
  Claim C4 (visibility predicate). For a mesh whose pose is available, the culling test
  rejects the mesh exactly when the straight-line distance from the viewer to the mesh
  exceeds \<open>kMaxViewDistance\<close> (3), or the distance exceeds 0.001 and the normalised
  direction to the mesh dotted with the viewer's forward vector is below
  \<open>kFOVCosThreshold\<close> (0.25); a mesh within 0.001 of the viewer passes. With the viewer
  at the origin facing \<open>-Z\<close>: a mesh at (0,0,-1) is shown, one at (0,0,-5) is culled
  (its distance exceeds 3), one at (3,0,0) is culled although its distance is exactly 3
  (the dot product is 0).
\<close>

theorem visibility_predicate:
  "(getPose frame (meshSpace (xrMeshObject env mesh)) referenceSpace = Some meshPose \<longrightarrow>
      (\<not> shouldShowMeshInView env mesh c f frame referenceSpace \<longleftrightarrow>
         straightLineDistance (posePosition meshPose) c > kMaxViewDistance
         \<or> (straightLineDistance (posePosition meshPose) c > 1 / 1000
            \<and> directionDotForward (posePosition meshPose) c f < kFOVCosThreshold)) \<and>
      (straightLineDistance (posePosition meshPose) c \<le> 1 / 1000 \<longrightarrow>
         shouldShowMeshInView env mesh c f frame referenceSpace)) \<and>
   kMaxViewDistance = 3 \<and> kFOVCosThreshold = 25 / 100 \<and>
   shouldShowMeshInView (sceneEnv t) 1 (Vector3 0 0 0) (Vector3 0 0 (- 1))
     (sceneFrame [1] (\<lambda>space. Some (poseAt 0 0 (- 1)))) 0 \<and>
   \<not> shouldShowMeshInView (sceneEnv t) 1 (Vector3 0 0 0) (Vector3 0 0 (- 1))
     (sceneFrame [1] (\<lambda>space. Some (poseAt 0 0 (- 5)))) 0 \<and>
   straightLineDistance (posePosition (poseAt 0 0 (- 5))) (Vector3 0 0 0) > kMaxViewDistance \<and>
   \<not> shouldShowMeshInView (sceneEnv t) 1 (Vector3 0 0 0) (Vector3 0 0 (- 1))
     (sceneFrame [1] (\<lambda>space. Some (poseAt 3 0 0))) 0 \<and>
   straightLineDistance (posePosition (poseAt 3 0 0)) (Vector3 0 0 0) = kMaxViewDistance \<and>
   directionDotForward (posePosition (poseAt 3 0 0)) (Vector3 0 0 0) (Vector3 0 0 (- 1)) = 0"
proof -
  have general: "\<not> shouldShowMeshInView env mesh c f frame referenceSpace \<longleftrightarrow>
         straightLineDistance (posePosition meshPose) c > kMaxViewDistance
         \<or> (straightLineDistance (posePosition meshPose) c > 1 / 1000
            \<and> directionDotForward (posePosition meshPose) c f < kFOVCosThreshold)"
    if "getPose frame (meshSpace (xrMeshObject env mesh)) referenceSpace = Some meshPose"
    using shouldShowMeshInView_iff [OF that, of c f]
    by (simp add: kMaxViewDistance_def kFOVCosThreshold_def)
  have near: "shouldShowMeshInView env mesh c f frame referenceSpace"
    if "getPose frame (meshSpace (xrMeshObject env mesh)) referenceSpace = Some meshPose"
      and "straightLineDistance (posePosition meshPose) c \<le> 1 / 1000"
    using shouldShowMeshInView_iff [OF that(1), of c f] that(2) by simp
  have scenes:
    "shouldShowMeshInView (sceneEnv t) 1 (Vector3 0 0 0) (Vector3 0 0 (- 1))
       (sceneFrame [1] (\<lambda>space. Some (poseAt 0 0 (- 1)))) 0"
    "\<not> shouldShowMeshInView (sceneEnv t) 1 (Vector3 0 0 0) (Vector3 0 0 (- 1))
       (sceneFrame [1] (\<lambda>space. Some (poseAt 0 0 (- 5)))) 0"
    "\<not> shouldShowMeshInView (sceneEnv t) 1 (Vector3 0 0 0) (Vector3 0 0 (- 1))
       (sceneFrame [1] (\<lambda>space. Some (poseAt 3 0 0))) 0"
    by (simp_all add: eval_defs)
  have nums:
    "straightLineDistance (posePosition (poseAt 0 0 (- 5))) (Vector3 0 0 0) > kMaxViewDistance"
    "straightLineDistance (posePosition (poseAt 3 0 0)) (Vector3 0 0 0) = kMaxViewDistance"
    "directionDotForward (posePosition (poseAt 3 0 0)) (Vector3 0 0 0) (Vector3 0 0 (- 1)) = 0"
    by (simp_all add: straightLineDistance_def directionDotForward_def posePosition_def eval_defs)
  show ?thesis
    using general near scenes nums
    by (simp add: kMaxViewDistance_def kFOVCosThreshold_def)
qed

theorem visibility_predicate_witness:
  "getPose (sceneFrame [2] (\<lambda>space. Some (poseAt 0 2 (- 2)))) (meshSpace (xrMeshObject (sceneEnv 0) 2)) 0
     = Some (poseAt 0 2 (- 2)) \<and>
   straightLineDistance (posePosition (poseAt 0 2 (- 2))) (Vector3 0 0 0) = sqrt 8 \<and>
   \<not> straightLineDistance (posePosition (poseAt 0 2 (- 2))) (Vector3 0 0 0) \<le> 1 / 1000 \<and>
   \<not> straightLineDistance (posePosition (poseAt 0 2 (- 2))) (Vector3 0 0 0) > kMaxViewDistance \<and>
   directionDotForward (posePosition (poseAt 0 2 (- 2))) (Vector3 0 0 0) (Vector3 0 0 (- 1)) = 2 / sqrt 8 \<and>
   shouldShowMeshInView (sceneEnv 0) 2 (Vector3 0 0 0) (Vector3 0 0 (- 1))
     (sceneFrame [2] (\<lambda>space. Some (poseAt 0 2 (- 2)))) 0"
proof -
  have p: "posePosition (poseAt 0 2 (- 2)) = Vector3 0 2 (- 2)"
    by (simp add: posePosition_def eval_defs)
  have d: "straightLineDistance (Vector3 0 2 (- 2)) (Vector3 0 0 0) = sqrt 8"
    by (simp add: straightLineDistance_def)
  have lo: "2 < sqrt 8"
    by (rule real_less_rsqrt) simp
  have hi: "sqrt 8 < 3"
    by (rule real_less_lsqrt) simp_all
  have c: "directionDotForward (Vector3 0 2 (- 2)) (Vector3 0 0 0) (Vector3 0 0 (- 1)) = 2 / sqrt 8"
    by (simp add: directionDotForward_def d)
  have big: "\<not> 2 / sqrt 8 < kFOVCosThreshold"
    using lo hi by (simp add: kFOVCosThreshold_def field_simps)
  show ?thesis
    using visibility_predicate
      [of "sceneFrame [2] (\<lambda>space. Some (poseAt 0 2 (- 2)))" "sceneEnv 0" 2 0 "poseAt 0 2 (- 2)"
          "Vector3 0 0 0" "Vector3 0 0 (- 1)"]
      lo hi big
    by (simp add: p d c sceneFrame_def sceneEnv_def kMaxViewDistance_def)
qed

text \<open>
  Claim C5 (culling reversibility), as stated: a mapped mesh that reports a pose beyond
  \<open>kMaxViewDistance\<close> on an eligible call loses both entries in that call. It fails for a
  mesh that the second loop never comes to: here mesh 100000 is mapped, the feed then
  holds 100000 visible meshes before it, and although it is five units away its entry is
  still there after the call.
\<close>

theorem culling_counterexample:
  "map_of (xrMeshToThreeMesh (run oneFarMesh)) 100000 = Some 0 \<and>
   detectedMeshes (sceneFrame crowdedFeed farPoses) = Some crowdedFeed \<and>
   100000 \<in> set crowdedFeed \<and>
   \<not> performance_now (sceneEnv 2000) - lastMeshUpdateTime (run oneFarMesh) < MESH_UPDATE_INTERVAL_MS \<and>
   getReferenceSpace (sceneEnv 2000) = Some 0 \<and>
   getPose (sceneFrame crowdedFeed farPoses) (meshSpace (xrMeshObject (sceneEnv 2000) 100000)) 0
     = Some (poseAt 0 0 (- 5)) \<and>
   straightLineDistance (posePosition (poseAt 0 0 (- 5)))
       (fst (getCameraInfo (sceneFrame crowdedFeed farPoses) 0)) > kMaxViewDistance \<and>
   map_of (xrMeshToThreeMesh
      (updateMeshes 0 (sceneEnv 2000) (Some (sceneFrame crowdedFeed farPoses)) (run oneFarMesh))) 100000
     = Some 0"
proof -
  have el: "detectedMeshes (sceneFrame crowdedFeed farPoses) = Some ([0..<100000] @ [100000])"
    "\<not> performance_now (sceneEnv 2000) - lastMeshUpdateTime (run oneFarMesh) < MESH_UPDATE_INTERVAL_MS"
    "getReferenceSpace (sceneEnv 2000) = Some 0"
    by (simp_all add: sceneFrame_def sceneEnv_def crowdedFeed_def run_oneFarMesh
        MESH_UPDATE_INTERVAL_MS_def)
  from updateMeshes_beyond_cap [OF el crowded(1) crowded_visible_farPoses crowded(2), of 0]
  have "map_of (xrMeshToThreeMesh
      (updateMeshes 0 (sceneEnv 2000) (Some (sceneFrame crowdedFeed farPoses)) (run oneFarMesh))) 100000
     = Some 0"
    by (simp add: run_oneFarMesh)
  moreover have "100000 \<in> set crowdedFeed" by (simp add: crowdedFeed_def)
  moreover have "getPose (sceneFrame crowdedFeed farPoses)
      (meshSpace (xrMeshObject (sceneEnv 2000) 100000)) 0 = Some (poseAt 0 0 (- 5))"
    by (simp add: sceneFrame_def sceneEnv_def farPoses_def)
  moreover have "straightLineDistance (posePosition (poseAt 0 0 (- 5)))
       (fst (getCameraInfo (sceneFrame crowdedFeed farPoses) 0)) > kMaxViewDistance"
    by (simp add: sceneCamera straightLineDistance_def posePosition_def poseAt_def translation_def
        fromArray_def kMaxViewDistance_def)
  ultimately show ?thesis using el by (simp add: crowdedFeed_def run_oneFarMesh)
qed

text \<open>
  Claim C5, amended: provided fewer than \<open>MAX_MESHES_PER_FRAME\<close> visible meshes come
  before the mesh in the feed, an eligible call on which the mapped mesh reports a pose
  beyond \<open>kMaxViewDistance\<close> takes it out (both entries gone, object disposed of and
  detached); and an eligible call on which the mesh, unmapped and in the feed, passes the
  culling test makes a new object for it, registers both entries and attaches the object.
\<close>

theorem culling_reversible:
  "(detectedMeshes frame = Some meshes \<and>
    \<not> performance_now env - lastMeshUpdateTime (run calls) < MESH_UPDATE_INTERVAL_MS \<and>
    getReferenceSpace env = Some rs \<and>
    map_of (xrMeshToThreeMesh (run calls)) h = Some m \<and> h \<in> set meshes \<and>
    getPose frame (meshSpace (xrMeshObject env h)) rs = Some pose \<and>
    straightLineDistance (posePosition pose) (fst (getCameraInfo frame rs)) > kMaxViewDistance \<and>
    processedBefore env frame rs meshes h < MAX_MESHES_PER_FRAME
    \<longrightarrow> meshRemoved h m (updateMeshes ts env (Some frame) (run calls))) \<and>
   (detectedMeshes frame' = Some meshes' \<and>
    \<not> performance_now env' - lastMeshUpdateTime (run calls') < MESH_UPDATE_INTERVAL_MS \<and>
    getReferenceSpace env' = Some rs' \<and>
    map_of (xrMeshToThreeMesh (run calls')) h = None \<and> h \<in> set meshes' \<and>
    meshVisible env' frame' rs' h \<and>
    processedBefore env' frame' rs' meshes' h < MAX_MESHES_PER_FRAME
    \<longrightarrow> (\<exists>m'. nextRef (run calls') \<le> m' \<and>
           meshMapped h m' (updateMeshes ts' env' (Some frame') (run calls')) \<and>
           objects (updateMeshes ts' env' (Some frame') (run calls')) m'
             = Some (createdMesh env' frame' h (run calls'))))"
proof (intro conjI impI)
  assume a: "detectedMeshes frame = Some meshes \<and>
    \<not> performance_now env - lastMeshUpdateTime (run calls) < MESH_UPDATE_INTERVAL_MS \<and>
    getReferenceSpace env = Some rs \<and>
    map_of (xrMeshToThreeMesh (run calls)) h = Some m \<and> h \<in> set meshes \<and>
    getPose frame (meshSpace (xrMeshObject env h)) rs = Some pose \<and>
    straightLineDistance (posePosition pose) (fst (getCameraInfo frame rs)) > kMaxViewDistance \<and>
    processedBefore env frame rs meshes h < MAX_MESHES_PER_FRAME"
  then have "\<not> meshVisible env frame rs h"
    by (intro beyond_distance_not_visible [where pose = pose]) simp_all
  with a show "meshRemoved h m (updateMeshes ts env (Some frame) (run calls))"
    by (intro updateMeshes_culled [where meshes = meshes and rs = rs] wellFormed_run) simp_all
next
  let ?s' = "updateMeshes ts' env' (Some frame') (run calls')"
  assume a: "detectedMeshes frame' = Some meshes' \<and>
    \<not> performance_now env' - lastMeshUpdateTime (run calls') < MESH_UPDATE_INTERVAL_MS \<and>
    getReferenceSpace env' = Some rs' \<and>
    map_of (xrMeshToThreeMesh (run calls')) h = None \<and> h \<in> set meshes' \<and>
    meshVisible env' frame' rs' h \<and>
    processedBefore env' frame' rs' meshes' h < MAX_MESHES_PER_FRAME"
  have wf': "wellFormed ?s'" using wellFormed_run by (rule wellFormed_updateMeshes)
  from a have "\<exists>m'. nextRef (run calls') \<le> m' \<and>
           map_of (xrMeshToThreeMesh ?s') h = Some m' \<and>
           objects ?s' m' = Some (createdMesh env' frame' h (run calls'))"
    by (intro updateMeshes_created [where meshes = meshes' and rs = rs'] wellFormed_run) simp_all
  then obtain m' where m': "nextRef (run calls') \<le> m'" "map_of (xrMeshToThreeMesh ?s') h = Some m'"
    "objects ?s' m' = Some (createdMesh env' frame' h (run calls'))" by blast
  from meshMappedI [OF wf' m'(2)] m'(1,3)
  show "\<exists>m'. nextRef (run calls') \<le> m' \<and> meshMapped h m' ?s' \<and>
           objects ?s' m' = Some (createdMesh env' frame' h (run calls'))" by blast
qed

theorem culling_reversible_witness:
  "detectedMeshes (sceneFrame [1, 2] (map_of [(1, poseAt 0 0 (- 5))])) = Some [1, 2] \<and>
   \<not> performance_now (sceneEnv 2000) - lastMeshUpdateTime (run twoMeshes) < MESH_UPDATE_INTERVAL_MS \<and>
   getReferenceSpace (sceneEnv 2000) = Some 0 \<and>
   map_of (xrMeshToThreeMesh (run twoMeshes)) 1 = Some 0 \<and> 1 \<in> set [1, 2 :: nat] \<and>
   getPose (sceneFrame [1, 2] (map_of [(1, poseAt 0 0 (- 5))])) (meshSpace (xrMeshObject (sceneEnv 2000) 1)) 0
     = Some (poseAt 0 0 (- 5)) \<and>
   straightLineDistance (posePosition (poseAt 0 0 (- 5)))
     (fst (getCameraInfo (sceneFrame [1, 2] (map_of [(1, poseAt 0 0 (- 5))])) 0)) > kMaxViewDistance \<and>
   processedBefore (sceneEnv 2000) (sceneFrame [1, 2] (map_of [(1, poseAt 0 0 (- 5))])) 0 [1, 2] 1
     < MAX_MESHES_PER_FRAME \<and>
   meshRemoved 1 0 (run culledRun) \<and>
   detectedMeshes (sceneFrame [1, 2] (map_of [(1, poseAt 0 0 (- 1))])) = Some [1, 2] \<and>
   \<not> performance_now (sceneEnv 3000) - lastMeshUpdateTime (run culledRun) < MESH_UPDATE_INTERVAL_MS \<and>
   getReferenceSpace (sceneEnv 3000) = Some 0 \<and>
   map_of (xrMeshToThreeMesh (run culledRun)) 1 = None \<and>
   meshVisible (sceneEnv 3000) (sceneFrame [1, 2] (map_of [(1, poseAt 0 0 (- 1))])) 0 1 \<and>
   processedBefore (sceneEnv 3000) (sceneFrame [1, 2] (map_of [(1, poseAt 0 0 (- 1))])) 0 [1, 2] 1
     < MAX_MESHES_PER_FRAME \<and>
   meshMapped 1 2
     (updateMeshes 0 (sceneEnv 3000) (Some (sceneFrame [1, 2] (map_of [(1, poseAt 0 0 (- 1))])))
        (run culledRun))"
proof -
  let ?far = "sceneFrame [1, 2] (map_of [(1, poseAt 0 0 (- 5))])"
  let ?near = "sceneFrame [1, 2] (map_of [(1, poseAt 0 0 (- 1))])"
  have h1: "detectedMeshes ?far = Some [1, 2] \<and>
    \<not> performance_now (sceneEnv 2000) - lastMeshUpdateTime (run twoMeshes) < MESH_UPDATE_INTERVAL_MS \<and>
    getReferenceSpace (sceneEnv 2000) = Some 0 \<and>
    map_of (xrMeshToThreeMesh (run twoMeshes)) 1 = Some 0 \<and> 1 \<in> set [1, 2 :: nat] \<and>
    getPose ?far (meshSpace (xrMeshObject (sceneEnv 2000) 1)) 0 = Some (poseAt 0 0 (- 5)) \<and>
    straightLineDistance (posePosition (poseAt 0 0 (- 5))) (fst (getCameraInfo ?far 0)) > kMaxViewDistance \<and>
    processedBefore (sceneEnv 2000) ?far 0 [1, 2] 1 < MAX_MESHES_PER_FRAME"
  proof -
    have "straightLineDistance (posePosition (poseAt 0 0 (- 5))) (fst (getCameraInfo ?far 0))
        > kMaxViewDistance"
      by (simp add: sceneCamera straightLineDistance_def posePosition_def
          poseAt_def translation_def fromArray_def kMaxViewDistance_def)
    then show ?thesis
      by (simp add: run_twoMeshes sceneFrame_def sceneEnv_def MESH_UPDATE_INTERVAL_MS_def
          processedBefore_def MAX_MESHES_PER_FRAME_def)
  qed
  have h2: "detectedMeshes ?near = Some [1, 2] \<and>
    \<not> performance_now (sceneEnv 3000) - lastMeshUpdateTime (run culledRun) < MESH_UPDATE_INTERVAL_MS \<and>
    getReferenceSpace (sceneEnv 3000) = Some 0 \<and>
    map_of (xrMeshToThreeMesh (run culledRun)) 1 = None \<and> 1 \<in> set [1, 2 :: nat] \<and>
    meshVisible (sceneEnv 3000) ?near 0 1 \<and>
    processedBefore (sceneEnv 3000) ?near 0 [1, 2] 1 < MAX_MESHES_PER_FRAME"
    by (simp add: run_culledRun meshVisible_def processedBefore_def eval_defs)
  have step: "run culledRun = updateMeshes 0 (sceneEnv 2000) (Some ?far) (run twoMeshes)"
    by (simp add: culledRun_def run_snoc)
  have e: "xrMeshToThreeMesh (updateMeshes 0 (sceneEnv 3000) (Some ?near) (run culledRun))
     = [(2, 1), (1, 2)]"
    by (simp add: run_def culledRun_def twoMeshes_def noPoses_def eval_defs)
  note T = culling_reversible [of ?far "[1, 2]" "sceneEnv 2000" twoMeshes 0 1 0 "poseAt 0 0 (- 5)" 0
      ?near "[1, 2]" "sceneEnv 3000" culledRun 0 0]
  from T h1 have 1: "meshRemoved 1 0 (run culledRun)"
    unfolding step by blast
  from T h2 obtain m' where
    "meshMapped 1 m' (updateMeshes 0 (sceneEnv 3000) (Some ?near) (run culledRun))" by blast
  moreover from this e have "m' = 2" by (simp add: meshMapped_def)
  ultimately show ?thesis using h1 h2 1 by simp
qed

text \<open>
  Claim C6 (fail-open on a missing pose), as stated: every mesh of the feed without a
  pose is mapped by an eligible call. It fails for a mesh that the second loop never comes
  to: the loop stops once it has counted \<open>MAX_MESHES_PER_FRAME\<close> visible meshes. Here the
  feed holds 100001 meshes without a pose, and the last one is not mapped.
\<close>

theorem fail_open_counterexample:
  "100000 \<in> set crowdedFeed \<and>
   detectedMeshes (sceneFrame crowdedFeed noPoses) = Some crowdedFeed \<and>
   \<not> performance_now (sceneEnv 1000) - lastMeshUpdateTime newMeshDetector < MESH_UPDATE_INTERVAL_MS \<and>
   getReferenceSpace (sceneEnv 1000) = Some 0 \<and>
   getPose (sceneFrame crowdedFeed noPoses) (meshSpace (xrMeshObject (sceneEnv 1000) 100000)) 0 = None \<and>
   map_of (xrMeshToThreeMesh
      (updateMeshes 0 (sceneEnv 1000) (Some (sceneFrame crowdedFeed noPoses)) newMeshDetector)) 100000
     = None"
proof -
  have el: "detectedMeshes (sceneFrame crowdedFeed noPoses) = Some ([0..<100000] @ [100000])"
    "\<not> performance_now (sceneEnv 1000) - lastMeshUpdateTime newMeshDetector < MESH_UPDATE_INTERVAL_MS"
    "getReferenceSpace (sceneEnv 1000) = Some 0"
    by (simp_all add: sceneFrame_def sceneEnv_def crowdedFeed_def newMeshDetector_def
        MESH_UPDATE_INTERVAL_MS_def)
  from updateMeshes_beyond_cap [OF el crowded(1) crowded_visible_noPoses crowded(2), of 0]
  have "map_of (xrMeshToThreeMesh
      (updateMeshes 0 (sceneEnv 1000) (Some (sceneFrame crowdedFeed noPoses)) newMeshDetector)) 100000
     = None"
    by (simp add: newMeshDetector_def)
  moreover have "100000 \<in> set crowdedFeed" by (simp add: crowdedFeed_def)
  moreover have "getPose (sceneFrame crowdedFeed noPoses)
      (meshSpace (xrMeshObject (sceneEnv 1000) 100000)) 0 = None"
    by (simp add: sceneFrame_def noPoses_def)
  ultimately show ?thesis using el by (simp add: crowdedFeed_def)
qed

text \<open>
  Claim C6, amended: a mesh of the feed whose pose lookup yields nothing passes the
  culling test whatever the thresholds are; and if fewer than \<open>MAX_MESHES_PER_FRAME\<close>
  visible meshes come before it in the feed, an eligible call leaves it mapped: with the
  object it had, refreshed, or else with a newly made object.
\<close>

theorem fail_open:
  assumes "detectedMeshes frame = Some meshes"
    and "\<not> performance_now env - lastMeshUpdateTime (run calls) < MESH_UPDATE_INTERVAL_MS"
    and "getReferenceSpace env = Some rs"
    and "h \<in> set meshes"
    and "getPose frame (meshSpace (xrMeshObject env h)) rs = None"
    and "processedBefore env frame rs meshes h < MAX_MESHES_PER_FRAME"
  shows "meshVisible env frame rs h \<and>
     (\<exists>m. meshMapped h m (updateMeshes ts env (Some frame) (run calls)) \<and>
        (case map_of (xrMeshToThreeMesh (run calls)) h of
           Some m0 \<Rightarrow> m = m0 \<and>
             map_option (refreshed env frame h) (objects (run calls) m0)
               = objects (updateMeshes ts env (Some frame) (run calls)) m
         | None \<Rightarrow> nextRef (run calls) \<le> m \<and>
             objects (updateMeshes ts env (Some frame) (run calls)) m
               = Some (createdMesh env frame h (run calls))))"
proof -
  let ?s = "run calls" and ?s' = "updateMeshes ts env (Some frame) (run calls)"
  have wf: "wellFormed ?s" by (rule wellFormed_run)
  have wf': "wellFormed ?s'" using wf by (rule wellFormed_updateMeshes)
  have vis: "meshVisible env frame rs h"
    using assms(5) by (rule meshVisible_no_pose)
  show ?thesis
  proof (cases "map_of (xrMeshToThreeMesh ?s) h")
    case None
    from updateMeshes_created [OF wf assms(1-3) None assms(4) vis assms(6), of ts]
    obtain m where m: "nextRef ?s \<le> m" "map_of (xrMeshToThreeMesh ?s') h = Some m"
      "objects ?s' m = Some (createdMesh env frame h ?s)" by blast
    from meshMappedI [OF wf' m(2)] m None vis show ?thesis by auto
  next
    case (Some m0)
    from wellFormedD(5) [OF wf Some] obtain obj where obj: "objects ?s m0 = Some obj"
      by (auto simp: objectLive_def split: option.splits)
    note R = updateMeshes_refreshed [OF wf assms(1-3) Some obj assms(4) vis assms(6), of ts]
    from meshMappedI [OF wf' R(1)] R(2) obj Some vis show ?thesis by auto
  qed
qed

theorem fail_open_witness:
  "detectedMeshes (sceneFrame [2, 3] noPoses) = Some [2, 3] \<and>
   \<not> performance_now (sceneEnv 2000) - lastMeshUpdateTime (run twoMeshes) < MESH_UPDATE_INTERVAL_MS \<and>
   getReferenceSpace (sceneEnv 2000) = Some 0 \<and>
   3 \<in> set [2, 3 :: nat] \<and>
   getPose (sceneFrame [2, 3] noPoses) (meshSpace (xrMeshObject (sceneEnv 2000) 3)) 0 = None \<and>
   processedBefore (sceneEnv 2000) (sceneFrame [2, 3] noPoses) 0 [2, 3] 3 < MAX_MESHES_PER_FRAME \<and>
   map_of (xrMeshToThreeMesh (run twoMeshes)) 3 = None \<and>
   nextRef (run twoMeshes) = 2 \<and>
   meshMapped 3 2 (updateMeshes 0 (sceneEnv 2000) (Some (sceneFrame [2, 3] noPoses)) (run twoMeshes))"
proof -
  have h: "detectedMeshes (sceneFrame [2, 3] noPoses) = Some [2, 3]"
    "\<not> performance_now (sceneEnv 2000) - lastMeshUpdateTime (run twoMeshes) < MESH_UPDATE_INTERVAL_MS"
    "getReferenceSpace (sceneEnv 2000) = Some 0"
    "3 \<in> set [2, 3 :: nat]"
    "getPose (sceneFrame [2, 3] noPoses) (meshSpace (xrMeshObject (sceneEnv 2000) 3)) 0 = None"
    "processedBefore (sceneEnv 2000) (sceneFrame [2, 3] noPoses) 0 [2, 3] 3 < MAX_MESHES_PER_FRAME"
    by (simp_all add: run_twoMeshes sceneFrame_def sceneEnv_def MESH_UPDATE_INTERVAL_MS_def
        noPoses_def processedBefore_def MAX_MESHES_PER_FRAME_def)
  have e: "map_of (xrMeshToThreeMesh (run twoMeshes)) 3 = None" "nextRef (run twoMeshes) = 2"
    "xrMeshToThreeMesh (updateMeshes 0 (sceneEnv 2000) (Some (sceneFrame [2, 3] noPoses)) (run twoMeshes))
       = [(2, 1), (3, 2)]"
    by (simp_all add: run_def twoMeshes_def noPoses_def eval_defs)
  from fail_open [OF h, of 0] obtain m where
    "meshMapped 3 m (updateMeshes 0 (sceneEnv 2000) (Some (sceneFrame [2, 3] noPoses)) (run twoMeshes))"
    by blast
  moreover from this e(3) have "m = 2" by (simp add: meshMapped_def)
  ultimately show ?thesis using h e(1,2) by simp
qed

text \<open>
  Claim C7 (material fallback ordering). Every object that a call of \<open>updateMeshes\<close>
  makes has as its material the first that is defined of: the label-specific debug
  material of the mesh's semantic label, the wireframe fallback, the invisible default.
  A mesh whose label is undefined or not one of \<open>SEMANTIC_LABELS\<close> has no label-specific
  material, and what it gets (the fallback or the default) is none of the label-specific
  materials.
\<close>

theorem material_fallback_order:
  assumes "map_of (xrMeshToThreeMesh (updateMeshes ts env frameOpt (run calls))) h = Some m"
    and "nextRef (run calls) \<le> m"
  shows "\<exists>obj. objects (updateMeshes ts env frameOpt (run calls)) m = Some obj \<and>
     mesh_material obj = firstDefinedMaterial (run calls) (semanticLabel (xrMeshObject env h)) \<and>
     ((\<forall>l. semanticLabel (xrMeshObject env h) = Some l \<longrightarrow> l \<notin> set SEMANTIC_LABELS) \<longrightarrow>
        labelMaterial (run calls) (semanticLabel (xrMeshObject env h)) = None \<and>
        mesh_material obj
          = (case fallbackDebugMaterial (run calls) of Some f \<Rightarrow> f | None \<Rightarrow> defaultMaterial) \<and>
        mesh_material obj \<notin> snd ` set (debugMaterials (run calls)))"
proof -
  let ?label = "semanticLabel (xrMeshObject env h)"
  have mk: "materialsKnown (run calls)" by (rule materialsKnown_run)
  from updateMeshes_new_objects [OF wellFormed_run assms]
  have obj: "objects (updateMeshes ts env frameOpt (run calls)) m
      = Some (createdMesh env (the frameOpt) h (run calls))" .
  have mat: "mesh_material (createdMesh env (the frameOpt) h (run calls))
      = firstDefinedMaterial (run calls) ?label"
    by (simp add: chooseMaterial_firstDefined [OF mk])
  show ?thesis
    using obj mat unknown_label_material [OF mk, of ?label] by auto
qed

theorem material_fallback_order_witness:
  "map_of (xrMeshToThreeMesh
      (updateMeshes 0 (sceneEnv 1000) (Some (sceneFrame [1, 2] noPoses)) (run debugRun))) 2 = Some 1 \<and>
   nextRef (run debugRun) \<le> 1 \<and>
   semanticLabel (xrMeshObject (sceneEnv 1000) 2) = None \<and>
   map_option mesh_material
     (objects (updateMeshes 0 (sceneEnv 1000) (Some (sceneFrame [1, 2] noPoses)) (run debugRun)) 1)
     = Some \<lparr>color = 0, wireframe = True, material_side = DoubleSide, visible = True\<rparr> \<and>
   map_option mesh_material
     (objects (updateMeshes 0 (sceneEnv 1000) (Some (sceneFrame [1, 2] noPoses)) (run debugRun)) 0)
     = Some \<lparr>color = 65280, wireframe = True, material_side = DoubleSide, visible = True\<rparr>"
proof -
  let ?s' = "updateMeshes 0 (sceneEnv 1000) (Some (sceneFrame [1, 2] noPoses)) (run debugRun)"
  have maps: "xrMeshToThreeMesh ?s' = [(1, 0), (2, 1)]"
    by (simp add: run_def debugRun_def init_def noPoses_def eval_defs)
  have h: "map_of (xrMeshToThreeMesh ?s') 2 = Some 1" "nextRef (run debugRun) \<le> 1"
    "map_of (xrMeshToThreeMesh ?s') 1 = Some 0" "nextRef (run debugRun) \<le> 0"
    unfolding maps by (simp_all add: run_debugRun)
  have l: "\<forall>l. semanticLabel (xrMeshObject (sceneEnv 1000) 2) = Some l \<longrightarrow> l \<notin> set SEMANTIC_LABELS"
    "semanticLabel (xrMeshObject (sceneEnv 1000) 1) = Some ''floor''"
    "semanticLabel (xrMeshObject (sceneEnv 1000) 2) = None"
    by (simp_all add: sceneEnv_def)
  from material_fallback_order [OF h(1,2)] l(1)
  have 1: "map_option mesh_material (objects ?s' 1)
     = Some \<lparr>color = 0, wireframe = True, material_side = DoubleSide, visible = True\<rparr>"
    by (auto simp: run_debugRun)
  from material_fallback_order [OF h(3,4)] obtain obj where o: "objects ?s' 0 = Some obj"
    "mesh_material obj
       = firstDefinedMaterial (run debugRun) (semanticLabel (xrMeshObject (sceneEnv 1000) 1))"
    by blast
  have "firstDefinedMaterial (run debugRun) (semanticLabel (xrMeshObject (sceneEnv 1000) 1))
     = \<lparr>color = 65280, wireframe = True, material_side = DoubleSide, visible = True\<rparr>"
    unfolding l(2) by (simp add: firstDefinedMaterial_def labelMaterial_def run_debugRun)
  with o have 2: "map_option mesh_material (objects ?s' 0)
     = Some \<lparr>color = 65280, wireframe = True, material_side = DoubleSide, visible = True\<rparr>"
    by simp
  from h l(3) 1 2 show ?thesis by simp
qed

text \<open>
  Claim C8 (physics backfill). \<open>initPhysics\<close> registers a physics representation, once,
  for every object that is mapped when it is called, keeps the engine, and leaves the
  maps as they are; and every object that \<open>updateMeshes\<close> makes while an engine is
  attached has its physics representation registered with that engine.
\<close>

theorem physics_backfill:
  "(map_of (xrMeshToThreeMesh (run calls)) h = Some m \<longrightarrow>
      (\<exists>obj. objects (run calls) m = Some obj \<and>
         objects (initPhysics p (run calls)) m = Some (obj\<lparr>mesh_rapier := mesh_rapier obj @ [p]\<rparr>))) \<and>
   physics_of (initPhysics p (run calls)) = Some p \<and>
   xrMeshToThreeMesh (initPhysics p (run calls)) = xrMeshToThreeMesh (run calls) \<and>
   threeMeshToXrMesh (initPhysics p (run calls)) = threeMeshToXrMesh (run calls) \<and>
   (physics_of (run calls') = Some p' \<and>
    map_of (xrMeshToThreeMesh (updateMeshes ts env frameOpt (run calls'))) h' = Some m' \<and>
    nextRef (run calls') \<le> m' \<longrightarrow>
      (\<exists>obj. objects (updateMeshes ts env frameOpt (run calls')) m' = Some obj \<and>
         mesh_rapier obj = [p']))"
proof (intro conjI impI)
  assume hm: "map_of (xrMeshToThreeMesh (run calls)) h = Some m"
  from wellFormedD(5) [OF wellFormed_run hm] obtain obj where obj: "objects (run calls) m = Some obj"
    by (auto simp: objectLive_def split: option.splits)
  with initPhysics_objects [OF wellFormed_run hm, of p]
  show "\<exists>obj. objects (run calls) m = Some obj \<and>
         objects (initPhysics p (run calls)) m = Some (obj\<lparr>mesh_rapier := mesh_rapier obj @ [p]\<rparr>)"
    by simp
next
  assume a: "physics_of (run calls') = Some p' \<and>
    map_of (xrMeshToThreeMesh (updateMeshes ts env frameOpt (run calls'))) h' = Some m' \<and>
    nextRef (run calls') \<le> m'"
  then have "objects (updateMeshes ts env frameOpt (run calls')) m'
      = Some (createdMesh env (the frameOpt) h' (run calls'))"
    by (intro updateMeshes_new_objects wellFormed_run) simp_all
  with a show "\<exists>obj. objects (updateMeshes ts env frameOpt (run calls')) m' = Some obj \<and>
         mesh_rapier obj = [p']"
    by simp
qed (simp_all add: initPhysics_fields)

theorem physics_backfill_witness:
  "map_of (xrMeshToThreeMesh (run twoMeshes)) 2 = Some 1 \<and>
   map_option mesh_rapier (objects (run twoMeshes) 1) = Some [] \<and>
   map_option mesh_rapier (objects (run physicsRun) 1) = Some [scenePhysics] \<and>
   physics_of (run physicsRun) = Some scenePhysics \<and>
   map_of (xrMeshToThreeMesh
      (updateMeshes 0 (sceneEnv 2000) (Some (sceneFrame [1, 2, 3] noPoses)) (run physicsRun))) 3
     = Some 2 \<and>
   nextRef (run physicsRun) \<le> 2 \<and>
   map_option mesh_rapier
     (objects (updateMeshes 0 (sceneEnv 2000) (Some (sceneFrame [1, 2, 3] noPoses)) (run physicsRun)) 2)
     = Some [scenePhysics]"
proof -
  let ?s' = "updateMeshes 0 (sceneEnv 2000) (Some (sceneFrame [1, 2, 3] noPoses)) (run physicsRun)"
  have step: "run physicsRun = initPhysics scenePhysics (run twoMeshes)"
    by (simp add: physicsRun_def run_snoc)
  have old: "map_option mesh_rapier (objects (run twoMeshes) 1) = Some []"
    by (simp add: run_def twoMeshes_def noPoses_def eval_defs)
  have maps: "xrMeshToThreeMesh ?s' = [(1, 0), (2, 1), (3, 2)]"
    by (simp add: run_def physicsRun_def twoMeshes_def noPoses_def initPhysics_def eval_defs)
  have h: "map_of (xrMeshToThreeMesh (run twoMeshes)) 2 = Some 1"
    "physics_of (run physicsRun) = Some scenePhysics \<and> map_of (xrMeshToThreeMesh ?s') 3 = Some 2 \<and>
       nextRef (run physicsRun) \<le> 2"
    unfolding maps by (simp_all add: run_twoMeshes run_physicsRun)
  note T = physics_backfill [of twoMeshes 2 1 scenePhysics physicsRun scenePhysics 0
      "sceneEnv 2000" "Some (sceneFrame [1, 2, 3] noPoses)" 3 2]
  from T h(1) old have 1: "map_option mesh_rapier (objects (run physicsRun) 1) = Some [scenePhysics]"
    unfolding step by auto
  from T h(2) have 2: "map_option mesh_rapier (objects ?s' 2) = Some [scenePhysics]"
    by auto
  from h old 1 2 show ?thesis by simp
qed

text \<open>
  Claim C9 (reference space unavailable). A call that passes the throttle gate while the
  renderer has no reference space changes nothing but \<open>lastMeshUpdateTime\<close>, which has
  become the current time; so every call within the next interval is throttled. A call
  without a frame, or with a frame that has no \<open>detectedMeshes\<close>, changes nothing at all.
\<close>

theorem reference_space_unavailable:
  "(detectedMeshes frame = Some meshes \<and>
    \<not> performance_now env - lastMeshUpdateTime s < MESH_UPDATE_INTERVAL_MS \<and>
    getReferenceSpace env = None \<longrightarrow>
      updateMeshes ts env (Some frame) s = s\<lparr>lastMeshUpdateTime := performance_now env\<rparr> \<and>
      (\<forall>ts' env' frameOpt'.
         performance_now env' - performance_now env < MESH_UPDATE_INTERVAL_MS \<longrightarrow>
         updateMeshes ts' env' frameOpt' (updateMeshes ts env (Some frame) s)
           = updateMeshes ts env (Some frame) s)) \<and>
   (frameOpt = None \<or> (\<exists>f. frameOpt = Some f \<and> detectedMeshes f = None) \<longrightarrow>
      updateMeshes ts env frameOpt s = s)"
proof (intro conjI impI)
  assume a: "detectedMeshes frame = Some meshes \<and>
    \<not> performance_now env - lastMeshUpdateTime s < MESH_UPDATE_INTERVAL_MS \<and>
    getReferenceSpace env = None"
  then show eq: "updateMeshes ts env (Some frame) s = s\<lparr>lastMeshUpdateTime := performance_now env\<rparr>"
    by (simp add: updateMeshes_def Let_def)
  show "\<forall>ts' env' frameOpt'.
         performance_now env' - performance_now env < MESH_UPDATE_INTERVAL_MS \<longrightarrow>
         updateMeshes ts' env' frameOpt' (updateMeshes ts env (Some frame) s)
           = updateMeshes ts env (Some frame) s"
    unfolding eq by (intro allI impI updateMeshes_throttled) simp
next
  assume "frameOpt = None \<or> (\<exists>f. frameOpt = Some f \<and> detectedMeshes f = None)"
  then show "updateMeshes ts env frameOpt s = s"
    by (auto simp: updateMeshes_def)
qed

theorem reference_space_unavailable_witness:
  "detectedMeshes (sceneFrame [1] (\<lambda>sp. None)) = Some [1] \<and>
   \<not> performance_now ((sceneEnv 1000)\<lparr>getReferenceSpace := None\<rparr>) - lastMeshUpdateTime newMeshDetector
       < MESH_UPDATE_INTERVAL_MS \<and>
   getReferenceSpace ((sceneEnv 1000)\<lparr>getReferenceSpace := None\<rparr>) = None \<and>
   updateMeshes 0 ((sceneEnv 1000)\<lparr>getReferenceSpace := None\<rparr>) (Some (sceneFrame [1] (\<lambda>sp. None)))
       newMeshDetector
     = newMeshDetector\<lparr>lastMeshUpdateTime := 1000\<rparr> \<and>
   performance_now (sceneEnv 1999) - performance_now ((sceneEnv 1000)\<lparr>getReferenceSpace := None\<rparr>)
       < MESH_UPDATE_INTERVAL_MS \<and>
   updateMeshes 0 (sceneEnv 1999) (Some (sceneFrame [1] (\<lambda>sp. None)))
       (updateMeshes 0 ((sceneEnv 1000)\<lparr>getReferenceSpace := None\<rparr>) (Some (sceneFrame [1] (\<lambda>sp. None)))
          newMeshDetector)
     = newMeshDetector\<lparr>lastMeshUpdateTime := 1000\<rparr> \<and>
   updateMeshes 0 (sceneEnv 1999) None newMeshDetector = newMeshDetector \<and>
   xrMeshToThreeMesh (updateMeshes 0 (sceneEnv 1999) (Some (sceneFrame [1] (\<lambda>sp. None))) newMeshDetector)
     = [(1, 0)]"
  using reference_space_unavailable
    [of "sceneFrame [1] (\<lambda>sp. None)" "[1]" "(sceneEnv 1000)\<lparr>getReferenceSpace := None\<rparr>"
        newMeshDetector 0 None]
  by (simp add: eval_defs)

text \<open>
  Claim C10 (stale transform). When an eligible call comes to a mapped mesh of the feed
  whose pose lookup yields nothing, the mesh stays mapped to the same object; the
  object's position and orientation are what they were before the call, and its geometry
  is the latest vertex data.
\<close>

theorem stale_transform_retained:
  assumes "detectedMeshes frame = Some meshes"
    and "\<not> performance_now env - lastMeshUpdateTime (run calls) < MESH_UPDATE_INTERVAL_MS"
    and "getReferenceSpace env = Some rs"
    and "map_of (xrMeshToThreeMesh (run calls)) h = Some m"
    and "h \<in> set meshes"
    and "getPose frame (meshSpace (xrMeshObject env h)) rs = None"
    and "processedBefore env frame rs meshes h < MAX_MESHES_PER_FRAME"
  shows "\<exists>obj obj'. objects (run calls) m = Some obj \<and>
     map_of (xrMeshToThreeMesh (updateMeshes ts env (Some frame) (run calls))) h = Some m \<and>
     objects (updateMeshes ts env (Some frame) (run calls)) m = Some obj' \<and>
     mesh_position obj' = mesh_position obj \<and>
     mesh_quaternion obj' = mesh_quaternion obj \<and>
     mesh_geometry obj' = (vertices (xrMeshObject env h), indices (xrMeshObject env h)) \<and>
     obj' = obj\<lparr>mesh_geometry := (vertices (xrMeshObject env h), indices (xrMeshObject env h))\<rparr>"
proof -
  have wf: "wellFormed (run calls)" by (rule wellFormed_run)
  from wellFormedD(5) [OF wf assms(4)] obtain obj where obj: "objects (run calls) m = Some obj"
    by (auto simp: objectLive_def split: option.splits)
  have vis: "meshVisible env frame rs h"
    using assms(6) by (rule meshVisible_no_pose)
  have r: "refreshed env frame h obj
      = obj\<lparr>mesh_geometry := (vertices (xrMeshObject env h), indices (xrMeshObject env h))\<rparr>"
    using assms(3,6) by (simp add: refreshed_def poseUpdate_def)
  note R = updateMeshes_refreshed [OF wf assms(1-4) obj assms(5) vis assms(7), of ts]
  from R obj show ?thesis unfolding r by simp
qed

theorem stale_transform_retained_witness:
  "detectedMeshes (sceneFrame [1] noPoses) = Some [1] \<and>
   \<not> performance_now (grownEnv 2000) - lastMeshUpdateTime (run placedRun) < MESH_UPDATE_INTERVAL_MS \<and>
   getReferenceSpace (grownEnv 2000) = Some 0 \<and>
   map_of (xrMeshToThreeMesh (run placedRun)) 1 = Some 0 \<and>
   1 \<in> set [1 :: nat] \<and>
   getPose (sceneFrame [1] noPoses) (meshSpace (xrMeshObject (grownEnv 2000) 1)) 0 = None \<and>
   processedBefore (grownEnv 2000) (sceneFrame [1] noPoses) 0 [1] 1 < MAX_MESHES_PER_FRAME \<and>
   objects (updateMeshes 0 (grownEnv 2000) (Some (sceneFrame [1] noPoses)) (run placedRun)) 0 =
     Some \<lparr>mesh_material = defaultMaterial, mesh_geometry = ([1, 2], [0, 1]),
           mesh_position = Vector3 0 0 (- 1), mesh_quaternion = DOMPoint 0 0 0 1,
           mesh_disposed = False, mesh_rapier = []\<rparr>"
proof -
  have h: "detectedMeshes (sceneFrame [1] noPoses) = Some [1]"
    "\<not> performance_now (grownEnv 2000) - lastMeshUpdateTime (run placedRun) < MESH_UPDATE_INTERVAL_MS"
    "getReferenceSpace (grownEnv 2000) = Some 0"
    "map_of (xrMeshToThreeMesh (run placedRun)) 1 = Some 0"
    "1 \<in> set [1 :: nat]"
    "getPose (sceneFrame [1] noPoses) (meshSpace (xrMeshObject (grownEnv 2000) 1)) 0 = None"
    "processedBefore (grownEnv 2000) (sceneFrame [1] noPoses) 0 [1] 1 < MAX_MESHES_PER_FRAME"
    by (simp_all add: run_placedRun sceneFrame_def grownEnv_def MESH_UPDATE_INTERVAL_MS_def
        noPoses_def processedBefore_def MAX_MESHES_PER_FRAME_def)
  from stale_transform_retained [OF h, of 0] h show ?thesis
    by (auto simp: run_placedRun grownEnv_def)
qed

end
